theory Spec2Isabelle
  imports Main
begin

section \<open>Index values and errors\<close>

text \<open>
  \<^verbatim>\<open>class MultiBlockSlice\<close> of \<^verbatim>\<open>h5py/_hl/selections.py\<close>: the four attributes
  the constructor stores; \<^verbatim>\<open>count\<close> may be \<^verbatim>\<open>None\<close>.
\<close>

record MultiBlockSlice =
  mbs_start :: int
  mbs_stride :: int
  mbs_count :: "int option"
  mbs_block :: int

text \<open>
  The index arguments that \<^verbatim>\<open>__getitem__\<close> receives, as a closed variant: an integer,
  a \<^verbatim>\<open>slice(start, stop, step)\<close> whose three fields may be \<^verbatim>\<open>None\<close>, a
  \<^verbatim>\<open>MultiBlockSlice\<close>, \<^verbatim>\<open>Ellipsis\<close>, a list or a tuple of integers, and a NumPy
  boolean array given by its shape and its elements in C order.
\<close>

datatype index =
    Integer int
  | Slice "int option" "int option" "int option"
  | MultiBlock MultiBlockSlice
  | Ellipsis
  | IndexList "int list"
  | IndexTuple "int list"
  | BoolArray "nat list" "bool list"

text \<open>
  The classes of an extent and the types of a selection that \<^verbatim>\<open>h5s\<close> names; the last
  constructor of each stands for a value this layer does not know.
\<close>

datatype space_class = NULL | SCALAR | SIMPLE | OtherClass

datatype select_type = SEL_NONE | SEL_POINTS | SEL_HYPERSLABS | SEL_ALL | OtherSelection

text \<open>
  What the source formats into an exception message: integers, shapes, the
  \<^verbatim>\<open>_repr\<close> of a \<^verbatim>\<open>MultiBlockSlice\<close> (start, stride, count, block), an index
  argument, the dictionary of sequence arguments, an extent class and a selection type.
\<close>

datatype fmt_arg =
    I int
  | Shp "int list"
  | Repr int int "int option" int
  | Arg index
  | Seqs "(nat \<times> int list) list"
  | Cls space_class
  | Sel select_type

text \<open>An exception is its class, the message template of the source and the values formatted into it.\<close>

datatype error =
    TypeError string "fmt_arg list"
  | ValueError string "fmt_arg list"
  | NotImplementedError string
  | IndexError string
  | ZeroDivisionError
  | EngineError string

section \<open>MultiBlockSlice\<close>

definition MultiBlockSlice_init :: "int \<Rightarrow> int \<Rightarrow> int option \<Rightarrow> int \<Rightarrow> error + MultiBlockSlice" where
  "MultiBlockSlice_init start stride count block =
     (if start < 0 then Inl (ValueError ''Start can't be negative'' [])
      else if stride < 1 \<or> (count \<noteq> None \<and> the count < 1) \<or> block < 1
        then Inl (ValueError ''Stride, count and block can't be 0 or negative'' [])
      else if block > stride
        then Inl (ValueError ''Blocks will overlap if block > stride'' [])
      else Inr \<lparr>mbs_start = start, mbs_stride = stride, mbs_count = count, mbs_block = block\<rparr>)"

text \<open>\<^verbatim>\<open>_repr(count)\<close>: a \<^verbatim>\<open>None\<close> argument is replaced by the stored count.\<close>

definition repr :: "MultiBlockSlice \<Rightarrow> int option \<Rightarrow> fmt_arg" where
  "repr self count =
     Repr (mbs_start self) (mbs_stride self)
          (case count of None \<Rightarrow> mbs_count self | Some c \<Rightarrow> Some c) (mbs_block self)"

definition indices :: "MultiBlockSlice \<Rightarrow> int \<Rightarrow> error + (int \<times> int \<times> int \<times> int)" where
  "indices self length' =
     (case (case mbs_count self of
              None \<Rightarrow>
                (let count = (length' - mbs_start self - mbs_block self) div mbs_stride self + 1
                 in if count < 1
                    then Inl (ValueError ''No full blocks can be selected using {} on dimension of length {}''
                                [repr self None, I length'])
                    else Inr count)
            | Some count \<Rightarrow> Inr count) of
        Inl e \<Rightarrow> Inl e
      | Inr count \<Rightarrow>
          (let end_index = mbs_start self + mbs_block self + (count - 1) * mbs_stride self - 1
           in if end_index \<ge> length'
              then Inl (ValueError ''{} range ({} - {}) extends beyond maximum index ({})''
                          [repr self (Some count), I (mbs_start self), I end_index, I (length' - 1)])
              else Inr (mbs_start self, count, mbs_stride self, mbs_block self)))"

definition translate_multi_block_slice :: "MultiBlockSlice \<Rightarrow> int \<Rightarrow> error + (int \<times> int \<times> int \<times> int)" where
  "translate_multi_block_slice exp length' = indices exp length'"

section \<open>Integers and slices\<close>

definition translate_int :: "int \<Rightarrow> int \<Rightarrow> error + (int \<times> int \<times> int)" where
  "translate_int exp0 length' =
     (let exp = (if exp0 < 0 then length' + exp0 else exp0)
      in if \<not> (0 \<le> exp \<and> exp < length')
         then Inl (ValueError ''Index (%s) out of range (0-%s)'' [I exp, I (length' - 1)])
         else Inr (exp, 1, 1))"

text \<open>
  Python's built-in \<^verbatim>\<open>slice.indices(length)\<close>, which \<^verbatim>\<open>_translate_slice\<close> calls first
  (the language's documented clamping: a missing step is 1, a zero step and a negative
  length raise \<^verbatim>\<open>ValueError\<close>, and the bounds are \<open>0\<close> and \<open>length\<close> for a positive
  step, \<open>-1\<close> and \<open>length - 1\<close> for a negative one).
\<close>

definition slice_indices :: "int option \<Rightarrow> int option \<Rightarrow> int option \<Rightarrow> int \<Rightarrow> error + (int \<times> int \<times> int)" where
  "slice_indices start0 stop0 step0 length' =
     (let step = (case step0 of None \<Rightarrow> 1 | Some s \<Rightarrow> s)
      in if step = 0 then Inl (ValueError ''slice step cannot be zero'' [])
         else if length' < 0 then Inl (ValueError ''length should not be negative'' [])
         else
           let lower = (if step < 0 then - 1 else 0);
               upper = (if step < 0 then length' - 1 else length');
               start = (case start0 of
                          None \<Rightarrow> (if step < 0 then upper else lower)
                        | Some s \<Rightarrow> (if s < 0 then max (s + length') lower else min s upper));
               stop = (case stop0 of
                         None \<Rightarrow> (if step < 0 then lower else upper)
                       | Some s \<Rightarrow> (if s < 0 then max (s + length') lower else min s upper))
           in Inr (start, stop, step))"

definition translate_slice :: "int option \<Rightarrow> int option \<Rightarrow> int option \<Rightarrow> int \<Rightarrow> error + (int \<times> int \<times> int)" where
  "translate_slice start0 stop0 step0 length' =
     (case slice_indices start0 stop0 step0 length' of
        Inl e \<Rightarrow> Inl e
      | Inr (start, stop, step) \<Rightarrow>
          if step < 1 then Inl (ValueError ''Step must be >= 1 (got %d)'' [I step])
          else if stop < start then Inr (0, 0, 1)
          else Inr (start, 1 + (stop - start - 1) div step, step))"

section \<open>Expanding the ellipsis\<close>

text \<open>
  \<^verbatim>\<open>_expand_ellipsis(args, rank)\<close>. A tuple multiplied by a negative number is the empty
  tuple, hence the conversion with \<^const>\<open>nat\<close>.
\<close>

definition expand_ellipsis :: "index list \<Rightarrow> nat \<Rightarrow> error + index list" where
  "expand_ellipsis args0 rank =
     (let n_el = count_list args0 Ellipsis
      in if n_el > 1 then Inl (ValueError ''Only one ellipsis may be used.'' [])
         else
           let args = (if n_el = 0 \<and> length args0 \<noteq> rank then args0 @ [Ellipsis] else args0);
               n_args = length args;
               final_args = concat (map (\<lambda>arg.
                   if arg = Ellipsis
                   then replicate (nat (int rank - int n_args + 1)) (Slice None None None)
                   else [arg]) args)
           in if length final_args > rank
              then Inl (TypeError ''Argument sequence too long'' [])
              else Inr final_args)"

section \<open>Simple selection tuples\<close>

text \<open>
  \<^verbatim>\<open>int(arg)\<close> on an index argument: an integer converts, a NumPy array of a single
  element converts to that element, and every other argument raises \<^verbatim>\<open>TypeError\<close>
  (\<open>None\<close> here).
\<close>

fun py_int :: "index \<Rightarrow> int option" where
  "py_int (Integer i) = Some i"
| "py_int (BoolArray shp data) = (case data of [b] \<Rightarrow> Some (if b then 1 else 0) | _ \<Rightarrow> None)"
| "py_int _ = None"

text \<open>The body of the loop of \<^verbatim>\<open>_handle_simple\<close>: one argument against one axis length.\<close>

fun handle_axis :: "index \<Rightarrow> int \<Rightarrow> error + (int \<times> int \<times> int \<times> int \<times> bool)" where
  "handle_axis (Slice a b c) length' =
     (case translate_slice a b c length' of
        Inl e \<Rightarrow> Inl e
      | Inr (start, count, stride) \<Rightarrow> Inr (start, count, stride, 1, False))"
| "handle_axis (MultiBlock m) length' =
     (case translate_multi_block_slice m length' of
        Inl e \<Rightarrow> Inl e
      | Inr (start, count, stride, block) \<Rightarrow> Inr (start, count, stride, block, False))"
| \<open>handle_axis arg length' =
     (case py_int arg of
        None \<Rightarrow> Inl (TypeError ''Illegal index "%s" (must be a slice or number)'' [Arg arg])
      | Some i \<Rightarrow>
          (case translate_int i length' of
             Inl e \<Rightarrow> Inl e
           | Inr (start, count, stride) \<Rightarrow> Inr (start, count, stride, 1, True)))\<close>

text \<open>The loop over \<^verbatim>\<open>zip(args, shape)\<close>; the first exception ends it.\<close>

fun handle_axes :: "(index \<times> int) list \<Rightarrow> error + (int \<times> int \<times> int \<times> int \<times> bool) list" where
  "handle_axes [] = Inr []"
| "handle_axes ((arg, length') # rest) =
     (case handle_axis arg length' of
        Inl e \<Rightarrow> Inl e
      | Inr row \<Rightarrow> (case handle_axes rest of Inl e \<Rightarrow> Inl e | Inr rows \<Rightarrow> Inr (row # rows)))"

type_synonym simple_sel = "int list \<times> int list \<times> int list \<times> int list \<times> bool list"

definition handle_simple :: "int list \<Rightarrow> index list \<Rightarrow> error + simple_sel" where
  "handle_simple shape args0 =
     (case expand_ellipsis args0 (length shape) of
        Inl e \<Rightarrow> Inl e
      | Inr args \<Rightarrow>
          (case handle_axes (zip args shape) of
             Inl e \<Rightarrow> Inl e
           | Inr rows \<Rightarrow>
               Inr (map (\<lambda>(start, count, stride, block, scalar). start) rows,
                    map (\<lambda>(start, count, stride, block, scalar). count) rows,
                    map (\<lambda>(start, count, stride, block, scalar). stride) rows,
                    map (\<lambda>(start, count, stride, block, scalar). block) rows,
                    map (\<lambda>(start, count, stride, block, scalar). scalar) rows)))"

section \<open>The dataspace engine\<close>

text \<open>
  Modelled from the spec: \<^verbatim>\<open>product\<close> of \<^verbatim>\<open>h5py/_hl/base.py\<close>, which is not among the
  sources; the product of the numbers of a shape, 1 for the empty shape.
\<close>

definition product :: "int list \<Rightarrow> int" where
  "product nums = foldl (\<lambda>prod n. prod * n) 1 nums"

text \<open>
  Modelled from the spec: the dataspace handle \<^verbatim>\<open>h5s.SpaceID\<close> and its primitives
  (select all, select none, select a hyperslab with the operators set, or and not-b, the
  number of selected points, the bounding box, copy and reposition), which the selection
  classes call and whose code is not among the sources. A handle holds the class and the
  shape of its extent, the type of its selection, the coordinates of the selected
  elements when the selection is made of points or hyperslabs, and the offset of the
  selection.
\<close>

datatype select_op = SELECT_SET | SELECT_OR | SELECT_NOTB

record SpaceID =
  sp_class :: space_class
  sp_shape :: "int list"
  sp_select_type :: select_type
  sp_points :: "int list list"
  sp_offset :: "int list"

definition create_simple :: "int list \<Rightarrow> SpaceID" where
  "create_simple shape =
     \<lparr>sp_class = (if shape = [] then SCALAR else SIMPLE), sp_shape = shape,
      sp_select_type = SEL_ALL, sp_points = [], sp_offset = replicate (length shape) 0\<rparr>"

definition select_all :: "SpaceID \<Rightarrow> SpaceID" where
  "select_all sid = sid\<lparr>sp_select_type := SEL_ALL, sp_points := []\<rparr>"

definition select_none :: "SpaceID \<Rightarrow> SpaceID" where
  "select_none sid = sid\<lparr>sp_select_type := SEL_NONE, sp_points := []\<rparr>"

definition copy :: "SpaceID \<Rightarrow> SpaceID" where
  "copy sid = sid"

definition offset_simple :: "SpaceID \<Rightarrow> int list \<Rightarrow> SpaceID" where
  "offset_simple sid offset = sid\<lparr>sp_offset := offset\<rparr>"

definition get_select_npoints :: "SpaceID \<Rightarrow> int" where
  "get_select_npoints sid =
     (case sp_select_type sid of
        SEL_ALL \<Rightarrow> product (sp_shape sid)
      | SEL_NONE \<Rightarrow> 0
      | _ \<Rightarrow> int (length (sp_points sid)))"

text \<open>The coordinates one axis of a hyperslab covers: \<open>count\<close> blocks of \<open>block\<close> elements, \<open>stride\<close> apart.\<close>

definition axis_points :: "int \<Rightarrow> int \<Rightarrow> int \<Rightarrow> int \<Rightarrow> int list" where
  "axis_points start count stride block =
     concat (map (\<lambda>i. map (\<lambda>j. start + int i * stride + int j) [0..<nat block]) [0..<nat count])"

definition hyperslab_points :: "int list \<Rightarrow> int list \<Rightarrow> int list \<Rightarrow> int list \<Rightarrow> int list list" where
  "hyperslab_points start count stride block =
     product_lists (map (\<lambda>(s, c, d, b). axis_points s c d b) (zip start (zip count (zip stride block))))"

definition selected_points :: "SpaceID \<Rightarrow> int list list" where
  "selected_points sid =
     (case sp_select_type sid of
        SEL_ALL \<Rightarrow> product_lists (map (\<lambda>d. map int [0..<nat d]) (sp_shape sid))
      | SEL_NONE \<Rightarrow> []
      | _ \<Rightarrow> sp_points sid)"

text \<open>
  \<^verbatim>\<open>select_hyperslab(start, count, stride, block, op)\<close>; a hyperslab without elements
  clears the selection under \<^verbatim>\<open>SELECT_SET\<close> and leaves it as it is under the other two
  operators, and a selection that loses all its elements becomes the empty selection.
\<close>

definition select_hyperslab ::
  "SpaceID \<Rightarrow> int list \<Rightarrow> int list \<Rightarrow> int list \<Rightarrow> int list \<Rightarrow> select_op \<Rightarrow> SpaceID" where
  "select_hyperslab sid start count stride block op =
     (let B = hyperslab_points start count stride block; A = selected_points sid
      in case op of
           SELECT_SET \<Rightarrow>
             if B = [] then select_none sid
             else sid\<lparr>sp_select_type := SEL_HYPERSLABS, sp_points := B\<rparr>
         | SELECT_OR \<Rightarrow>
             if B = [] then sid
             else sid\<lparr>sp_select_type := SEL_HYPERSLABS, sp_points := A @ filter (\<lambda>p. p \<notin> set A) B\<rparr>
         | SELECT_NOTB \<Rightarrow>
             if B = [] then sid
             else if filter (\<lambda>p. p \<notin> set B) A = [] then select_none sid
             else sid\<lparr>sp_select_type := SEL_HYPERSLABS, sp_points := filter (\<lambda>p. p \<notin> set B) A\<rparr>)"

text \<open>The corners of the bounding box of the selected elements; there is none for an empty selection.\<close>

definition get_select_bounds :: "SpaceID \<Rightarrow> (int list \<times> int list) option" where
  "get_select_bounds sid =
     (case selected_points sid of
        [] \<Rightarrow> None
      | p # ps \<Rightarrow>
          Some (map (\<lambda>a. fold (\<lambda>q m. min (q ! a) m) ps (p ! a)) [0..<length (sp_shape sid)],
                map (\<lambda>a. fold (\<lambda>q m. max (q ! a) m) ps (p ! a)) [0..<length (sp_shape sid)]))"

section \<open>Selection\<close>

record Selection =
  s_id :: SpaceID
  s_shape :: "int list"

definition Selection_init :: "int list \<Rightarrow> SpaceID option \<Rightarrow> Selection" where
  "Selection_init shape spaceid =
     (case spaceid of
        Some sid \<Rightarrow> \<lparr>s_id = sid, s_shape = sp_shape sid\<rparr>
      | None \<Rightarrow> \<lparr>s_id = select_all (create_simple shape), s_shape = shape\<rparr>)"

definition nselect :: "'a Selection_scheme \<Rightarrow> int" where
  "nselect self = get_select_npoints (s_id self)"

definition Selection_mshape :: "'a Selection_scheme \<Rightarrow> int list" where
  "Selection_mshape self = [nselect self]"

definition Selection_array_shape :: "'a Selection_scheme \<Rightarrow> int list" where
  "Selection_array_shape self = Selection_mshape self"

definition Selection_expand_shape :: "'a Selection_scheme \<Rightarrow> int list \<Rightarrow> error + int list" where
  "Selection_expand_shape self source_shape =
     (if product source_shape \<noteq> nselect self
      then Inl (TypeError ''Broadcasting is not supported for point-wise selections'' [])
      else Inr source_shape)"

text \<open>
  The generators \<^verbatim>\<open>broadcast\<close> are modelled by the list of the handles they yield, or
  by the exception raised before the first of them.
\<close>

definition Selection_broadcast :: "'a Selection_scheme \<Rightarrow> int list \<Rightarrow> error + SpaceID list" where
  "Selection_broadcast self source_shape =
     (if product source_shape \<noteq> nselect self
      then Inl (TypeError ''Broadcasting is not supported for point-wise selections'' [])
      else Inr [s_id self])"

definition Selection_getitem :: "'a Selection_scheme \<Rightarrow> index list \<Rightarrow> error + 'a Selection_scheme" where
  "Selection_getitem self args = Inl (NotImplementedError ''This class does not support indexing'')"

section \<open>SimpleSelection\<close>

record SimpleSelection = Selection +
  s_sel :: "int list \<times> int list \<times> int list \<times> bool list"
  s_array_shape :: "int list"
  s_block_shape :: "int list"

definition SimpleSelection_init :: "int list \<Rightarrow> SimpleSelection" where
  "SimpleSelection_init shape =
     (let rank = length shape
      in \<lparr>s_id = select_all (create_simple shape), s_shape = shape,
          s_sel = (replicate rank 0, shape, replicate rank 1, replicate rank False),
          s_array_shape = shape, s_block_shape = replicate rank 1\<rparr>)"

definition SimpleSelection_mshape :: "SimpleSelection \<Rightarrow> int list" where
  "SimpleSelection_mshape self =
     (case s_sel self of (start, count, stride, scalar) \<Rightarrow>
        map (\<lambda>(count', block'). count' * block') (zip count (s_block_shape self)))"

text \<open>
  \<^verbatim>\<open>args[0] not in (Ellipsis, ())\<close> compares with \<^verbatim>\<open>==\<close>: only \<^verbatim>\<open>Ellipsis\<close> and the
  empty tuple are in; a NumPy array of more than one element compares elementwise and its
  truth value raises \<^verbatim>\<open>ValueError\<close>.
\<close>

definition SimpleSelection_getitem :: "SimpleSelection \<Rightarrow> index list \<Rightarrow> error + SimpleSelection" where
  "SimpleSelection_getitem self args =
     (if s_shape self = [] then
        (case args of
           [] \<Rightarrow> Inr (self\<lparr>s_id := select_all (s_id self)\<rparr>)
         | arg # _ \<Rightarrow>
             (case arg of
                Ellipsis \<Rightarrow> Inr (self\<lparr>s_id := select_all (s_id self)\<rparr>)
              | IndexTuple [] \<Rightarrow> Inr (self\<lparr>s_id := select_all (s_id self)\<rparr>)
              | BoolArray shp (b1 # b2 # bs) \<Rightarrow>
                  Inl (ValueError ''The truth value of an array with more than one element is ambiguous'' [])
              | _ \<Rightarrow> Inl (TypeError ''Invalid index for scalar dataset (only ..., () allowed)'' [])))
      else
        (case handle_simple (s_shape self) args of
           Inl e \<Rightarrow> Inl e
         | Inr (start, count, stride, block, scalar) \<Rightarrow>
             (let length' = map (\<lambda>(count', block'). count' * block') (zip count block)
              in Inr (self\<lparr>s_id := select_hyperslab (s_id self) start count stride block SELECT_SET,
                            s_block_shape := block,
                            s_sel := (start, count, stride, scalar),
                            s_array_shape := map fst (filter (\<lambda>(dim_length, scalar'). \<not> scalar')
                                                         (zip length' scalar))\<rparr>))))"

text \<open>\<^verbatim>\<open>xs[-idx]\<close>: the element \<open>idx\<close> places from the end, \<^verbatim>\<open>IndexError\<close> (\<open>None\<close>) out of range.\<close>

definition from_end :: "'a list \<Rightarrow> nat \<Rightarrow> 'a option" where
  "from_end xs idx = (if 1 \<le> idx \<and> idx \<le> length xs then Some (xs ! (length xs - idx)) else None)"

text \<open>
  One turn of the loop of \<^verbatim>\<open>expand_shape\<close> on the pair of \<^verbatim>\<open>remaining_src_dims\<close> and
  \<^verbatim>\<open>eshape\<close>; \<^verbatim>\<open>or\<close> evaluates its right side only when the left one is false.
\<close>

definition expand_step ::
  "SimpleSelection \<Rightarrow> int list \<Rightarrow> nat \<Rightarrow> int list \<times> int list \<Rightarrow> error + (int list \<times> int list)" where
  "expand_step self source_shape idx st =
     (case st of (remaining_src_dims, eshape) \<Rightarrow>
        (case s_sel self of (start, count, stride, scalar) \<Rightarrow>
           (if length remaining_src_dims = 0 then Inr (remaining_src_dims, eshape @ [1])
            else case from_end scalar idx of
                None \<Rightarrow> Inl (IndexError ''tuple index out of range'')
              | Some True \<Rightarrow> Inr (remaining_src_dims, eshape @ [1])
              | Some False \<Rightarrow>
                  (let t = last remaining_src_dims; rest = butlast remaining_src_dims
                   in if t = 1 then Inr (rest, eshape @ [t])
                      else case from_end (SimpleSelection_mshape self) idx of
                          None \<Rightarrow> Inl (IndexError ''tuple index out of range'')
                        | Some m \<Rightarrow>
                            if m = t then Inr (rest, eshape @ [t])
                            else case from_end (s_block_shape self) idx of
                                None \<Rightarrow> Inl (IndexError ''tuple index out of range'')
                              | Some b \<Rightarrow>
                                  if b = t then Inr (rest, eshape @ [t])
                                  else Inl (TypeError ''Can't broadcast %s -> %s''
                                              [Shp source_shape, Shp (s_array_shape self)])))))"

fun expand_loop ::
  "SimpleSelection \<Rightarrow> int list \<Rightarrow> nat list \<Rightarrow> int list \<times> int list \<Rightarrow> error + (int list \<times> int list)" where
  "expand_loop self source_shape [] st = Inr st"
| "expand_loop self source_shape (idx # idxs) st =
     (case expand_step self source_shape idx st of
        Inl e \<Rightarrow> Inl e
      | Inr st' \<Rightarrow> expand_loop self source_shape idxs st')"

definition SimpleSelection_expand_shape :: "SimpleSelection \<Rightarrow> int list \<Rightarrow> error + int list" where
  "SimpleSelection_expand_shape self source_shape =
     (let rank = length (SimpleSelection_mshape self)
      in case expand_loop self source_shape [1..<rank + 1] (source_shape, []) of
           Inl e \<Rightarrow> Inl e
         | Inr (remaining_src_dims, eshape) \<Rightarrow>
             if \<exists>n \<in> set remaining_src_dims. n > 1
             then Inl (TypeError ''Can't broadcast %s -> %s'' [Shp source_shape, Shp (s_array_shape self)])
             else Inr (rev eshape))"

text \<open>\<^verbatim>\<open>tuple(x//y for x, y in zip(...))\<close>: the first zero divisor raises.\<close>

fun floordiv_all :: "(int \<times> int) list \<Rightarrow> error + int list" where
  "floordiv_all [] = Inr []"
| "floordiv_all ((x, y) # rest) =
     (if y = 0 then Inl ZeroDivisionError
      else case floordiv_all rest of Inl e \<Rightarrow> Inl e | Inr qs \<Rightarrow> Inr (x div y # qs))"

text \<open>
  NumPy's \<^verbatim>\<open>unravel_index(idx, dims)\<close> in its default C order, for an index inside the
  grid (the only ones \<^verbatim>\<open>broadcast\<close> passes).
\<close>

fun unravel_index :: "int \<Rightarrow> int list \<Rightarrow> int list" where
  "unravel_index idx [] = []"
| "unravel_index idx (d # ds) = (idx div product ds) # unravel_index (idx mod product ds) ds"

definition SimpleSelection_broadcast :: "SimpleSelection \<Rightarrow> int list \<Rightarrow> error + SpaceID list" where
  "SimpleSelection_broadcast self source_shape =
     (if s_shape self = [] then
        (if product source_shape \<noteq> 1
         then Inl (TypeError ''Can't broadcast %s to scalar'' [Shp source_shape])
         else Inr [select_all (s_id self)])
      else
        (case s_sel self of (start, count, step, scalar) \<Rightarrow>
           (let rank = length (SimpleSelection_mshape self)
            in case SimpleSelection_expand_shape self source_shape of
                 Inl e \<Rightarrow> Inl e
               | Inr chunk_shape \<Rightarrow>
                   (case floordiv_all (zip (SimpleSelection_mshape self) chunk_shape) of
                      Inl e \<Rightarrow> Inl e
                    | Inr chunks \<Rightarrow>
                        (let nchunks = product chunks
                         in if nchunks = 1 then Inr [s_id self]
                            else
                              (let sid = select_hyperslab (copy (s_id self)) (replicate rank 0)
                                           (replicate rank 1) step chunk_shape SELECT_SET
                               in Inr (map (\<lambda>idx.
                                     offset_simple sid
                                       (map (\<lambda>(start', step', chunk_idx). start' + chunk_idx * step')
                                            (zip start (zip step (unravel_index (int idx) chunks)))))
                                     [0..<nat nchunks])))))))"

section \<open>FancySelection\<close>

record FancySelection = Selection +
  f_mshape :: "int list"
  f_array_shape :: "int list"

definition FancySelection_init :: "int list \<Rightarrow> FancySelection" where
  "FancySelection_init shape =
     \<lparr>s_id = select_all (create_simple shape), s_shape = shape,
      f_mshape = shape, f_array_shape = shape\<rparr>"

text \<open>\<^verbatim>\<open>arg.nonzero()[0]\<close> of a one-dimensional boolean array: the positions that hold \<^verbatim>\<open>True\<close>.\<close>

definition nonzero :: "bool list \<Rightarrow> int list" where
  "nonzero data = map int (filter (\<lambda>i. data ! i) [0..<length data])"

text \<open>
  What the first loop of \<^verbatim>\<open>FancySelection.__getitem__\<close> makes of one argument: a slice
  is skipped; a boolean array must have one dimension and becomes its nonzero positions;
  \<^verbatim>\<open>list(arg)\<close> succeeds on a list, a tuple and an array, and raises the \<^verbatim>\<open>TypeError\<close>
  that is passed over on an integer and a \<^verbatim>\<open>MultiBlockSlice\<close>.
\<close>

fun as_sequence :: "index \<Rightarrow> error + int list option" where
  "as_sequence (Slice a b c) = Inr None"
| "as_sequence (BoolArray shp data) =
     (if length shp \<noteq> 1 then Inl (TypeError ''Boolean indexing arrays must be 1-D'' [])
      else Inr (Some (nonzero data)))"
| "as_sequence (IndexList xs) = Inr (Some xs)"
| "as_sequence (IndexTuple xs) = Inr (Some xs)"
| "as_sequence arg = Inr None"

text \<open>\<^verbatim>\<open>any(fst >= snd for fst, snd in zip(list_arg[:-1], list_arg[1:]))\<close>.\<close>

definition not_increasing :: "int list \<Rightarrow> bool" where
  "not_increasing list_arg = list_ex (\<lambda>(fst', snd'). fst' \<ge> snd') (zip (butlast list_arg) (tl list_arg))"

text \<open>The first loop, over \<^verbatim>\<open>enumerate(args)\<close>; the dictionary is the list of its items in insertion order.\<close>

fun collect_sequences :: "nat \<Rightarrow> index list \<Rightarrow> (nat \<times> int list) list \<Rightarrow> error + (nat \<times> int list) list" where
  "collect_sequences idx [] sequenceargs = Inr sequenceargs"
| "collect_sequences idx (arg # args) sequenceargs =
     (case as_sequence arg of
        Inl e \<Rightarrow> Inl e
      | Inr None \<Rightarrow> collect_sequences (Suc idx) args sequenceargs
      | Inr (Some list_arg) \<Rightarrow>
          if not_increasing list_arg
          then Inl (TypeError ''Indexing elements must be in increasing order'' [])
          else collect_sequences (Suc idx) args (sequenceargs @ [(idx, list_arg)]))"

text \<open>
  The loop that ORs the selection lists together; it keeps the result of the last
  \<^verbatim>\<open>_handle_simple\<close>, which the code reads after the loop.
\<close>

fun select_vectors :: "int list \<Rightarrow> index list list \<Rightarrow> SpaceID \<times> simple_sel \<Rightarrow> error + (SpaceID \<times> simple_sel)" where
  "select_vectors shape [] st = Inr st"
| "select_vectors shape (vector # rest) (sid, last') =
     (case handle_simple shape vector of
        Inl e \<Rightarrow> Inl e
      | Inr (start, count, stride, block, scalar) \<Rightarrow>
          select_vectors shape rest
            (select_hyperslab sid start count stride block SELECT_OR,
             (start, count, stride, block, scalar)))"

definition FancySelection_getitem :: "FancySelection \<Rightarrow> index list \<Rightarrow> error + FancySelection" where
  "FancySelection_getitem self args0 =
     (case expand_ellipsis args0 (length (s_shape self)) of
        Inl e \<Rightarrow> Inl e
      | Inr args \<Rightarrow>
         (case collect_sequences 0 args [] of
            Inl e \<Rightarrow> Inl e
          | Inr sequenceargs \<Rightarrow>
              if length sequenceargs > 1
              then Inl (TypeError ''Only one indexing vector or array is currently allowed for advanced selection'' [])
              else if length sequenceargs = 0
              then Inl (TypeError ''Advanced selection inappropriate'' [])
              else
                (let vectorlength = length (snd (hd sequenceargs))
                 in if \<not> list_all (\<lambda>(position, x). length x = vectorlength) sequenceargs
                    then Inl (TypeError ''All sequence arguments must have the same length %s'' [Seqs sequenceargs])
                    else
                      (let argvector =
                         (if vectorlength > 0
                          then map (\<lambda>idx. fold (\<lambda>(position, seq) entry. entry[position := Integer (seq ! idx)])
                                             sequenceargs args) [0..<vectorlength]
                          else [fold (\<lambda>(position, seq) entry. entry[position := Slice (Some 0) (Some 0) None])
                                     sequenceargs args])
                       in case select_vectors (s_shape self) argvector
                                 (select_none (s_id self), ([], [], [], [], [])) of
                            Inl e \<Rightarrow> Inl e
                          | Inr (sid, (start, count, stride, block, scalar)) \<Rightarrow>
                              (let mshape = map (\<lambda>idx.
                                     case map_of sequenceargs idx of
                                       Some seq \<Rightarrow> int (length seq)
                                     | None \<Rightarrow> if scalar ! idx then - 1 else count ! idx)
                                   [0..<length count]
                               in Inr (self\<lparr>s_id := sid,
                                             f_mshape := map abs mshape,
                                             f_array_shape := filter (\<lambda>x. x \<ge> 0) mshape\<rparr>))))))"

definition FancySelection_expand_shape :: "FancySelection \<Rightarrow> int list \<Rightarrow> error + int list" where
  "FancySelection_expand_shape self source_shape =
     (if \<not> source_shape = f_array_shape self
      then Inl (TypeError ''Broadcasting is not supported for complex selections'' [])
      else Inr source_shape)"

definition FancySelection_broadcast :: "FancySelection \<Rightarrow> int list \<Rightarrow> error + SpaceID list" where
  "FancySelection_broadcast self source_shape =
     (if \<not> source_shape = f_array_shape self
      then Inl (TypeError ''Broadcasting is not supported for complex selections'' [])
      else Inr [s_id self])"

section \<open>Guessing the shape of a selection\<close>

text \<open>
  The inner function \<^verbatim>\<open>get_n_axis\<close> of \<^verbatim>\<open>guess_shape\<close>, with the values it takes from the
  enclosing scope as arguments. \<^verbatim>\<open>select_hyperslab(start, count, op=...)\<close> leaves stride
  and block at their default, 1 on every axis.
\<close>

definition get_n_axis :: "SpaceID \<Rightarrow> int \<Rightarrow> int list \<Rightarrow> int list \<Rightarrow> nat \<Rightarrow> error + int" where
  "get_n_axis sid N bottomcorner boxshape axis =
     (if boxshape ! axis = 1 then Inr 1
      else
        (let start = bottomcorner[axis := bottomcorner ! axis + 1];
             count = boxshape[axis := boxshape ! axis - 1];
             masked_sid = select_hyperslab (copy sid) start count
                            (replicate (length start) 1) (replicate (length start) 1) SELECT_NOTB;
             N_leftover = get_select_npoints masked_sid
         in if N_leftover = 0 then Inl ZeroDivisionError else Inr (N div N_leftover)))"

text \<open>\<^verbatim>\<open>tuple(get_n_axis(sid, x) for x in range(rank))\<close>.\<close>

fun axis_counts :: "SpaceID \<Rightarrow> int \<Rightarrow> int list \<Rightarrow> int list \<Rightarrow> nat list \<Rightarrow> error + int list" where
  "axis_counts sid N bottomcorner boxshape [] = Inr []"
| "axis_counts sid N bottomcorner boxshape (x # xs) =
     (case get_n_axis sid N bottomcorner boxshape x of
        Inl e \<Rightarrow> Inl e
      | Inr n \<Rightarrow>
          (case axis_counts sid N bottomcorner boxshape xs of
             Inl e \<Rightarrow> Inl e
           | Inr ns \<Rightarrow> Inr (n # ns)))"

text \<open>\<^verbatim>\<open>guess_shape\<close>; the result \<open>None\<close> is Python's \<^verbatim>\<open>None\<close>.\<close>

definition guess_shape :: "SpaceID \<Rightarrow> error + int list option" where
  "guess_shape sid =
     (let sel_class = sp_class sid; sel_type = sp_select_type sid
      in if sel_class = NULL then Inr None
         else if sel_class = SCALAR \<and> sel_type = SEL_NONE then Inr None
         else if sel_class = SCALAR \<and> sel_type = SEL_ALL then Inr (Some [])
         else if sel_class \<noteq> SCALAR \<and> sel_class \<noteq> SIMPLE
         then Inl (TypeError ''Unrecognized dataspace class %s'' [Cls sel_class])
         else
           (let N = get_select_npoints sid; rank = length (sp_shape sid)
            in if sel_type = SEL_NONE then Inr (Some (replicate rank 0))
               else if sel_type = SEL_ALL then Inr (Some (sp_shape sid))
               else if sel_type = SEL_POINTS then Inr (Some [N])
               else if sel_type \<noteq> SEL_HYPERSLABS
               then Inl (TypeError ''Unrecognized selection method %s'' [Sel sel_type])
               else if N = 0 then Inr (Some (replicate rank 0))
               else
                 (case get_select_bounds sid of
                    None \<Rightarrow> Inl (EngineError ''no bounds of an empty selection'')
                  | Some (bottomcorner, topcorner) \<Rightarrow>
                      (let boxshape = map (\<lambda>(t, b). t - b + 1) (zip topcorner bottomcorner)
                       in case axis_counts sid N bottomcorner boxshape [0..<rank] of
                            Inl e \<Rightarrow> Inl e
                          | Inr shape \<Rightarrow>
                              if product shape \<noteq> N then Inr (Some [N]) else Inr (Some shape)))))"

section \<open>Well-formed simple selections and the broadcast rule in the words of the specification\<close>

text \<open>
  The four tuples of \<^verbatim>\<open>_sel\<close> and \<^verbatim>\<open>_block_shape\<close> of a \<^verbatim>\<open>SimpleSelection\<close> have one
  entry per axis: \<^verbatim>\<open>__init__\<close> and \<^verbatim>\<open>__getitem__\<close> build them so.
\<close>

definition simple_wf :: "SimpleSelection \<Rightarrow> bool" where
  "simple_wf self =
     (case s_sel self of (start, count, stride, scalar) \<Rightarrow>
        length start = length count \<and> length stride = length count \<and>
        length scalar = length count \<and> length (s_block_shape self) = length count)"

text \<open>
  The rule of the specification for \<^verbatim>\<open>expand_shape\<close>, written from its words and not
  from the code: the axes are walked from the last to the first, each given as (is scalar,
  mshape, block length), against the source dimensions from the last to the first. A scalar
  axis consumes nothing and contributes 1; another axis takes the next source dimension, or 1
  when none is left, which is legal when it is 1, the mshape or the block length of the
  axis. The result is the expanded dimensions, last axis first, and the source dimensions
  left over.
\<close>

fun walk_axes :: "(bool \<times> int \<times> int) list \<Rightarrow> int list \<Rightarrow> (int list \<times> int list) option" where
  "walk_axes [] src = Some ([], src)"
| "walk_axes ((scalar, m, b) # axes) src =
     (if scalar then map_option (\<lambda>(e, r). (1 # e, r)) (walk_axes axes src)
      else case src of
          [] \<Rightarrow> map_option (\<lambda>(e, r). (1 # e, r)) (walk_axes axes [])
        | t # src' \<Rightarrow>
            if t = 1 \<or> t = m \<or> t = b
            then map_option (\<lambda>(e, r). (t # e, r)) (walk_axes axes src')
            else None)"

definition expand_shape_spec :: "SimpleSelection \<Rightarrow> int list \<Rightarrow> error + int list" where
  "expand_shape_spec self source_shape =
     (case s_sel self of (start, count, stride, scalar) \<Rightarrow>
        (case walk_axes (rev (zip scalar (zip (SimpleSelection_mshape self) (s_block_shape self))))
                        (rev source_shape) of
           None \<Rightarrow> Inl (TypeError ''Can't broadcast %s -> %s'' [Shp source_shape, Shp (s_array_shape self)])
         | Some (e, unconsumed) \<Rightarrow>
             if \<exists>n \<in> set unconsumed. n > 1
             then Inl (TypeError ''Can't broadcast %s -> %s'' [Shp source_shape, Shp (s_array_shape self)])
             else Inr (rev e)))"

section \<open>Arithmetic of floor division\<close>

lemma div_minus_one: "1 \<le> (step::int) \<Longrightarrow> (- 1) div step = - 1"
  using div_eq_minus1[of step] by simp

lemma mult_le_iff_le_div:
  assumes "1 \<le> (st::int)"
  shows "(k * st \<le> X) = (k \<le> X div st)"
proof
  assume "k * st \<le> X"
  then have "(k * st) div st \<le> X div st" using assms by (intro zdiv_mono1) auto
  then show "k \<le> X div st" using assms by simp
next
  assume h: "k \<le> X div st"
  have "k * st \<le> (X div st) * st" using h assms by (intro mult_right_mono) auto
  also have "\<dots> \<le> X"
    using assms div_mult_mod_eq[of X st] pos_mod_sign[of st X] by linarith
  finally show "k * st \<le> X" .
qed

section \<open>Slices\<close>

lemma slice_indices_range:
  assumes "slice_indices a b c L = Inr (start, stop, step)" "1 \<le> step"
  shows "0 \<le> start \<and> start \<le> L \<and> 0 \<le> stop \<and> stop \<le> L \<and> 0 \<le> L"
  using assms
  by (auto simp: slice_indices_def Let_def split: if_splits option.splits)

lemma slice_indices_step:
  "slice_indices a b c L = Inr (start, stop, step) \<Longrightarrow> step = (case c of None \<Rightarrow> 1 | Some s \<Rightarrow> s)"
  by (auto simp: slice_indices_def Let_def split: if_splits option.splits)

lemma slice_indices_defined:
  "0 \<le> L \<Longrightarrow> (case c of None \<Rightarrow> 1 | Some s \<Rightarrow> s) \<noteq> 0 \<Longrightarrow> \<exists>r. slice_indices a b c L = Inr r"
  by (auto simp: slice_indices_def Let_def split: option.splits)

lemma slice_indices_zero_step:
  "(case c of None \<Rightarrow> 1 | Some s \<Rightarrow> s) = 0 \<Longrightarrow>
   slice_indices a b c L = Inl (ValueError ''slice step cannot be zero'' [])"
  by (auto simp: slice_indices_def Let_def split: option.splits)

lemma slice_indices_negative_length:
  "L < 0 \<Longrightarrow> \<exists>m. slice_indices a b c L = Inl (ValueError m [])"
  by (auto simp: slice_indices_def Let_def split: option.splits)

text \<open>
  C1, as the code has it. The step is the given one, or 1 when it is missing. A step below 1
  always ends in a \<^verbatim>\<open>ValueError\<close>. For a step of at least 1 on an axis of length
  \<open>L \<ge> 0\<close>, \<^verbatim>\<open>slice.indices\<close> puts start and stop into \<open>[0, L]\<close>; the result is the
  empty region \<open>(0, 0, 1)\<close> when \<open>stop < start\<close>, and \<open>(start, count, step)\<close> with
  \<open>count = 1 + (stop - start - 1) div step\<close> when \<open>start \<le> stop\<close>; for \<open>stop = start\<close>
  that count is 0, and start and step are kept as they are.
\<close>

theorem translate_slice_amended:
  "step = (case c of None \<Rightarrow> 1 | Some s \<Rightarrow> s) \<Longrightarrow>
   (step < 1 \<longrightarrow> (\<exists>m as. translate_slice a b c L = Inl (ValueError m as))) \<and>
   (1 \<le> step \<and> 0 \<le> L \<longrightarrow>
      (\<exists>start stop. slice_indices a b c L = Inr (start, stop, step) \<and>
         0 \<le> start \<and> start \<le> L \<and> 0 \<le> stop \<and> stop \<le> L \<and>
         translate_slice a b c L =
           (if stop < start then Inr (0, 0, 1)
            else Inr (start, 1 + (stop - start - 1) div step, step)) \<and>
         (stop = start \<longrightarrow> 1 + (stop - start - 1) div step = 0)))"
proof (intro conjI impI)
  assume step: "step = (case c of None \<Rightarrow> 1 | Some s \<Rightarrow> s)" and small: "step < 1"
  show "\<exists>m as. translate_slice a b c L = Inl (ValueError m as)"
  proof (cases "slice_indices a b c L")
    case (Inl e)
    have "\<exists>m. e = ValueError m []"
    proof (cases "step = 0")
      case True
      then show ?thesis using slice_indices_zero_step[of c a b L] step Inl by simp
    next
      case False
      then have "L < 0" using slice_indices_defined[of L c a b] step Inl by fastforce
      then show ?thesis using slice_indices_negative_length[of L a b c] Inl by simp
    qed
    then show ?thesis using Inl by (auto simp: translate_slice_def)
  next
    case (Inr r)
    obtain start stop step' where r: "r = (start, stop, step')" by (cases r)
    have "step' = step" using slice_indices_step[of a b c L start stop step'] Inr r step by simp
    then show ?thesis using Inr r small by (simp add: translate_slice_def)
  qed
next
  assume step: "step = (case c of None \<Rightarrow> 1 | Some s \<Rightarrow> s)" and big: "1 \<le> step \<and> 0 \<le> L"
  then obtain r where r: "slice_indices a b c L = Inr r"
    using slice_indices_defined[of L c a b] by auto
  obtain start stop step' where r': "r = (start, stop, step')" by (cases r)
  have s: "step' = step" using slice_indices_step[of a b c L start stop step'] r r' step by simp
  have rng: "0 \<le> start \<and> start \<le> L \<and> 0 \<le> stop \<and> stop \<le> L"
    using slice_indices_range[of a b c L start stop step] r r' s big by simp
  have "translate_slice a b c L =
          (if stop < start then Inr (0, 0, 1)
           else Inr (start, 1 + (stop - start - 1) div step, step))"
    using r r' s big by (simp add: translate_slice_def)
  moreover have "stop = start \<longrightarrow> 1 + (stop - start - 1) div step = 0"
    using div_minus_one[of step] big by simp
  ultimately show "\<exists>start stop. slice_indices a b c L = Inr (start, stop, step) \<and>
         0 \<le> start \<and> start \<le> L \<and> 0 \<le> stop \<and> stop \<le> L \<and>
         translate_slice a b c L =
           (if stop < start then Inr (0, 0, 1)
            else Inr (start, 1 + (stop - start - 1) div step, step)) \<and>
         (stop = start \<longrightarrow> 1 + (stop - start - 1) div step = 0)"
    using r r' s rng by blast
qed

theorem translate_slice_amended_witness:
  "translate_slice (Some 2) (Some 9) (Some 3) 10 = Inr (2, 3, 3) \<and>
   translate_slice (Some 7) (Some 3) None 10 = Inr (0, 0, 1) \<and>
   translate_slice (Some 3) (Some 3) (Some 2) 10 = Inr (3, 0, 2) \<and>
   translate_slice None None (Some (- 1)) 10 = Inl (ValueError ''Step must be >= 1 (got %d)'' [I (- 1)])"
  using translate_slice_amended[of 3 "Some 3" "Some 2" "Some 9" 10]
        translate_slice_amended[of 1 None "Some 7" "Some 3" 10]
        translate_slice_amended[of 2 "Some 2" "Some 3" "Some 3" 10]
        translate_slice_amended[of "- 1" "Some (- 1)" None None 10]
  by (simp add: translate_slice_def slice_indices_def Let_def)

text \<open>
  C1 as stated fails where \<open>stop = start\<close>: \<^verbatim>\<open>slice(3, 3)\<close> on an axis of length 10 is
  normalised to start 3, stop 3, step 1, and the result keeps the start: it is
  \<open>(3, 0, 1)\<close>, not \<open>(0, 0, 1)\<close>.
\<close>

theorem translate_slice_counterexample:
  "slice_indices (Some 3) (Some 3) None 10 = Inr (3, 3, 1) \<and>
   translate_slice (Some 3) (Some 3) None 10 = Inr (3, 0, 1) \<and>
   translate_slice (Some 3) (Some 3) None 10 \<noteq> Inr (0, 0, 1)"
  by (simp add: translate_slice_def slice_indices_def Let_def)

section \<open>Strided blocks\<close>

text \<open>
  C4. For a \<^verbatim>\<open>MultiBlockSlice\<close> that the constructor accepts and any length \<open>L\<close>: with a
  count \<open>n\<close> given, \<^verbatim>\<open>indices\<close> raises \<^verbatim>\<open>ValueError\<close>, with the parameters, the end
  index and the maximum index in the message, exactly when
  \<open>start + block + (n - 1) * stride - 1 \<ge> L\<close>, and returns (start, n, stride, block)
  otherwise. With the count omitted it computes \<open>n = (L - start - block) div stride + 1\<close>,
  raises exactly when \<open>n < 1\<close> and returns (start, n, stride, block) otherwise; that
  \<open>n\<close> is the largest number of blocks that fit, since \<open>k\<close> blocks fit exactly when
  \<open>k \<le> n\<close>.
\<close>

theorem indices_spec:
  assumes "MultiBlockSlice_init s st c b = Inr m"
  shows "(case c of
            Some n \<Rightarrow>
              indices m L =
                (if s + b + (n - 1) * st - 1 \<ge> L
                 then Inl (ValueError ''{} range ({} - {}) extends beyond maximum index ({})''
                             [Repr s st (Some n) b, I s, I (s + b + (n - 1) * st - 1), I (L - 1)])
                 else Inr (s, n, st, b))
          | None \<Rightarrow>
              (let n = (L - s - b) div st + 1 in
               indices m L =
                 (if n < 1
                  then Inl (ValueError ''No full blocks can be selected using {} on dimension of length {}''
                              [Repr s st None b, I L])
                  else Inr (s, n, st, b)) \<and>
               (\<forall>k. s + b + (k - 1) * st - 1 < L \<longleftrightarrow> k \<le> n)))"
proof -
  have m: "m = \<lparr>mbs_start = s, mbs_stride = st, mbs_count = c, mbs_block = b\<rparr>" and st: "1 \<le> st"
    using assms by (auto simp: MultiBlockSlice_init_def split: if_splits)
  show ?thesis
  proof (cases c)
    case (Some n)
    then show ?thesis by (simp add: m indices_def repr_def Let_def)
  next
    case None
    define q where "q = (L - s - b) div st"
    have fit: "s + b + (k - 1) * st - 1 < L \<longleftrightarrow> k \<le> q + 1" for k
    proof -
      have "s + b + (k - 1) * st - 1 < L \<longleftrightarrow> (k - 1) * st \<le> L - s - b" by linarith
      also have "\<dots> \<longleftrightarrow> k - 1 \<le> q"
        unfolding q_def using st by (rule mult_le_iff_le_div)
      finally show ?thesis by linarith
    qed
    have "\<not> L \<le> s + b + q * st - 1" using fit[of "q + 1"] by simp
    then show ?thesis using None fit
      by (simp add: m indices_def repr_def Let_def q_def[symmetric])
  qed
qed

theorem indices_spec_witness:
  "MultiBlockSlice_init 2 3 (Some 2) 2 =
     Inr \<lparr>mbs_start = 2, mbs_stride = 3, mbs_count = Some 2, mbs_block = 2\<rparr> \<and>
   indices \<lparr>mbs_start = 2, mbs_stride = 3, mbs_count = Some 2, mbs_block = 2\<rparr> 10 = Inr (2, 2, 3, 2) \<and>
   indices \<lparr>mbs_start = 2, mbs_stride = 3, mbs_count = Some 2, mbs_block = 2\<rparr> 6 =
     Inl (ValueError ''{} range ({} - {}) extends beyond maximum index ({})''
            [Repr 2 3 (Some 2) 2, I 2, I 6, I 5]) \<and>
   MultiBlockSlice_init 2 3 None 2 =
     Inr \<lparr>mbs_start = 2, mbs_stride = 3, mbs_count = None, mbs_block = 2\<rparr> \<and>
   indices \<lparr>mbs_start = 2, mbs_stride = 3, mbs_count = None, mbs_block = 2\<rparr> 10 = Inr (2, 3, 3, 2)"
proof -
  have a: "MultiBlockSlice_init 2 3 (Some 2) 2 =
     Inr \<lparr>mbs_start = 2, mbs_stride = 3, mbs_count = Some 2, mbs_block = 2\<rparr>"
    by (simp add: MultiBlockSlice_init_def)
  have b: "MultiBlockSlice_init 2 3 None 2 =
     Inr \<lparr>mbs_start = 2, mbs_stride = 3, mbs_count = None, mbs_block = 2\<rparr>"
    by (simp add: MultiBlockSlice_init_def)
  show ?thesis
    using a b indices_spec[OF a, of 10] indices_spec[OF a, of 6] indices_spec[OF b, of 10]
    by (simp add: Let_def)
qed

section \<open>Ellipsis expansion\<close>

lemma concat_map_no_ellipsis:
  "Ellipsis \<notin> set xs \<Longrightarrow> concat (map (\<lambda>arg. if arg = Ellipsis then r else [arg]) xs) = xs"
  by (induction xs) auto

lemma count_list_one_split:
  "count_list xs x = 1 \<Longrightarrow> \<exists>pre post. xs = pre @ x # post \<and> x \<notin> set pre \<and> x \<notin> set post"
proof (induction xs)
  case Nil
  then show ?case by simp
next
  case (Cons a xs)
  show ?case
  proof (cases "a = x")
    case True
    then have "count_list xs x = 0" using Cons.prems by simp
    then have "x \<notin> set xs" by (simp add: count_list_0_iff)
    then show ?thesis using True by (intro exI[of _ "[]"] exI[of _ xs]) simp
  next
    case False
    then obtain pre post where "xs = pre @ x # post" "x \<notin> set pre" "x \<notin> set post"
      using Cons by auto
    then show ?thesis using False by (intro exI[of _ "a # pre"] exI[of _ post]) simp
  qed
qed

lemma count_list_split:
  "x \<notin> set pre \<Longrightarrow> x \<notin> set post \<Longrightarrow> count_list (pre @ x # post) x = 1"
  by (induction pre) (auto simp: count_list_0_iff)

lemma expand_ellipsis_many:
  "1 < count_list args Ellipsis \<Longrightarrow>
   expand_ellipsis args rank = Inl (ValueError ''Only one ellipsis may be used.'' [])"
  by (simp add: expand_ellipsis_def)

lemma expand_ellipsis_single:
  assumes "count_list args Ellipsis = 1"
  shows "expand_ellipsis args rank =
      (if length (concat (map (\<lambda>arg. if arg = Ellipsis
               then replicate (nat (int rank - int (length args) + 1)) (Slice None None None)
               else [arg]) args)) > rank
       then Inl (TypeError ''Argument sequence too long'' [])
       else Inr (concat (map (\<lambda>arg. if arg = Ellipsis
               then replicate (nat (int rank - int (length args) + 1)) (Slice None None None)
               else [arg]) args)))"
  using assms by (simp add: expand_ellipsis_def Let_def)

lemma expand_ellipsis_one:
  assumes "Ellipsis \<notin> set pre" "Ellipsis \<notin> set post"
  shows "expand_ellipsis (pre @ Ellipsis # post) rank =
           (if length pre + length post > rank
            then Inl (TypeError ''Argument sequence too long'' [])
            else Inr (pre @ replicate (rank - (length pre + length post)) (Slice None None None) @ post))"
proof -
  define args where "args = pre @ Ellipsis # post"
  define r where "r = replicate (nat (int rank - int (length args) + 1)) (Slice None None None)"
  have c: "count_list args Ellipsis = 1"
    unfolding args_def using assms by (rule count_list_split)
  have n: "nat (int rank - int (length args) + 1) = rank - (length pre + length post)"
    by (simp add: args_def)
  have f: "concat (map (\<lambda>arg. if arg = Ellipsis then r else [arg]) args) = pre @ r @ post"
    unfolding args_def using assms by (simp add: concat_map_no_ellipsis)
  have e: "expand_ellipsis args rank =
      (if length (pre @ r @ post) > rank
       then Inl (TypeError ''Argument sequence too long'' [])
       else Inr (pre @ r @ post))"
    unfolding expand_ellipsis_single[OF c] r_def[symmetric] f ..
  have r: "r = replicate (rank - (length pre + length post)) (Slice None None None)"
    unfolding r_def n ..
  have "(length (pre @ r @ post) > rank) = (length pre + length post > rank)"
    unfolding r by auto
  then show ?thesis using e r unfolding args_def by simp
qed

lemma expand_ellipsis_none_full:
  assumes "count_list args Ellipsis = 0" "length args = rank"
  shows "expand_ellipsis args rank = Inr args"
  using assms by (simp add: expand_ellipsis_def count_list_0_iff concat_map_no_ellipsis)

lemma expand_ellipsis_none_append:
  assumes "count_list args Ellipsis = 0" "length args \<noteq> rank"
  shows "expand_ellipsis args rank = expand_ellipsis (args @ [Ellipsis]) rank"
proof -
  have "Ellipsis \<notin> set args" using assms by (simp add: count_list_0_iff)
  then have "count_list (args @ [Ellipsis]) Ellipsis = 1"
    using count_list_split[of Ellipsis args "[]"] by simp
  then show ?thesis using assms by (simp add: expand_ellipsis_def Let_def)
qed

lemma expand_ellipsis_length:
  assumes "expand_ellipsis args rank = Inr fa"
  shows "length fa = rank"
proof -
  have le1: "count_list args Ellipsis \<le> 1"
  proof (rule ccontr)
    assume "\<not> count_list args Ellipsis \<le> 1"
    then have "1 < count_list args Ellipsis" by simp
    then have "expand_ellipsis args rank = Inl (ValueError ''Only one ellipsis may be used.'' [])"
      by (rule expand_ellipsis_many)
    then show False unfolding assms by simp
  qed
  have one: "length fa = rank"
    if p: "Ellipsis \<notin> set pre" "Ellipsis \<notin> set post"
       and e: "expand_ellipsis (pre @ Ellipsis # post) rank = Inr fa" for pre post
  proof -
    have eq: "(if length pre + length post > rank
            then Inl (TypeError ''Argument sequence too long'' [])
            else Inr (pre @ replicate (rank - (length pre + length post)) (Slice None None None) @ post)) = Inr fa"
      using e unfolding expand_ellipsis_one[OF p] .
    show ?thesis
    proof (cases "length pre + length post > rank")
      case True
      then show ?thesis using eq by simp
    next
      case False
      then have "fa = pre @ replicate (rank - (length pre + length post)) (Slice None None None) @ post"
        using eq by simp
      then show ?thesis using False by simp
    qed
  qed
  have nat01: "n = 1" if "n \<le> 1" "n \<noteq> 0" for n :: nat
    using that by arith
  show ?thesis
  proof (cases "count_list args Ellipsis = 0")
    case True
    note z = True
    show ?thesis
    proof (cases "length args = rank")
      case True
      have "expand_ellipsis args rank = Inr args" using z True by (rule expand_ellipsis_none_full)
      then have "fa = args" unfolding assms by simp
      then show ?thesis using True by simp
    next
      case False
      have n: "Ellipsis \<notin> set args" using z by (simp add: count_list_0_iff)
      have "expand_ellipsis (args @ [Ellipsis]) rank = Inr fa"
        using assms unfolding expand_ellipsis_none_append[OF z False] .
      then have "expand_ellipsis (args @ Ellipsis # []) rank = Inr fa" by simp
      then show ?thesis using one[of args "[]"] n by simp
    qed
  next
    case False
    have "count_list args Ellipsis = 1" using le1 False by (rule nat01)
    then have "\<exists>pre post. args = pre @ Ellipsis # post \<and> Ellipsis \<notin> set pre \<and> Ellipsis \<notin> set post"
      by (rule count_list_one_split)
    then obtain pre post where a: "args = pre @ Ellipsis # post"
      and p: "Ellipsis \<notin> set pre" "Ellipsis \<notin> set post"
      by (elim exE conjE)
    show ?thesis using one[OF p] assms unfolding a .
  qed
qed


lemma filter_no_ellipsis: "Ellipsis \<notin> set xs \<Longrightarrow> filter (\<lambda>a. a \<noteq> Ellipsis) xs = xs"
  by (induction xs) auto

lemma expand_ellipsis_too_many:
  assumes le1: "count_list args Ellipsis \<le> 1"
    and long: "rank < length (filter (\<lambda>a. a \<noteq> Ellipsis) args)"
  shows "expand_ellipsis args rank = Inl (TypeError ''Argument sequence too long'' [])"
proof (cases "count_list args Ellipsis = 0")
  case True
  then have n: "Ellipsis \<notin> set args" by (simp add: count_list_0_iff)
  then have l: "rank < length args" using long by (simp add: filter_no_ellipsis)
  then have ne: "length args \<noteq> rank" by simp
  have "expand_ellipsis (args @ [Ellipsis]) rank = Inl (TypeError ''Argument sequence too long'' [])"
    using l expand_ellipsis_one[OF n, of "[]" rank] by simp
  then show ?thesis unfolding expand_ellipsis_none_append[OF True ne] .
next
  case False
  have nat01: "n = 1" if "n \<le> 1" "n \<noteq> 0" for n :: nat
    using that by arith
  have "count_list args Ellipsis = 1" using le1 False by (rule nat01)
  then have "\<exists>pre post. args = pre @ Ellipsis # post \<and> Ellipsis \<notin> set pre \<and> Ellipsis \<notin> set post"
    by (rule count_list_one_split)
  then obtain pre post where a: "args = pre @ Ellipsis # post"
    and p: "Ellipsis \<notin> set pre" "Ellipsis \<notin> set post"
    by (elim exE conjE)
  have "rank < length pre + length post"
    using long p unfolding a by (simp add: filter_no_ellipsis)
  then show ?thesis unfolding a expand_ellipsis_one[OF p] by simp
qed

text \<open>
  C7. With \<open>n\<close> the number of \<^verbatim>\<open>Ellipsis\<close> entries of the argument tuple: \<open>n > 1\<close>
  raises \<^verbatim>\<open>ValueError\<close>; with no Ellipsis and a length other than the rank the result is
  that of the tuple with an Ellipsis appended; a tuple of rank entries without Ellipsis is
  returned as it is; a single Ellipsis between \<open>pre\<close> and \<open>post\<close> becomes
  \<open>rank - (length pre + length post)\<close> full slices when the explicit entries fit; with at
  most one Ellipsis, more explicit entries than the rank raise \<^verbatim>\<open>TypeError\<close>; and every
  result that is not an error has exactly rank entries.
\<close>

theorem expand_ellipsis_spec:
  "(1 < count_list args Ellipsis \<longrightarrow>
      expand_ellipsis args rank = Inl (ValueError ''Only one ellipsis may be used.'' [])) \<and>
   (count_list args Ellipsis = 0 \<and> length args \<noteq> rank \<longrightarrow>
      expand_ellipsis args rank = expand_ellipsis (args @ [Ellipsis]) rank) \<and>
   (count_list args Ellipsis = 0 \<and> length args = rank \<longrightarrow> expand_ellipsis args rank = Inr args) \<and>
   (\<forall>pre post. args = pre @ Ellipsis # post \<and> Ellipsis \<notin> set pre \<and> Ellipsis \<notin> set post \<longrightarrow>
      expand_ellipsis args rank =
        (if rank < length pre + length post
         then Inl (TypeError ''Argument sequence too long'' [])
         else Inr (pre @ replicate (rank - (length pre + length post)) (Slice None None None) @ post))) \<and>
   (count_list args Ellipsis \<le> 1 \<and> rank < length (filter (\<lambda>a. a \<noteq> Ellipsis) args) \<longrightarrow>
      expand_ellipsis args rank = Inl (TypeError ''Argument sequence too long'' [])) \<and>
   (\<forall>fa. expand_ellipsis args rank = Inr fa \<longrightarrow> length fa = rank)"
proof (intro conjI allI impI)
  assume "1 < count_list args Ellipsis"
  then show "expand_ellipsis args rank = Inl (ValueError ''Only one ellipsis may be used.'' [])"
    by (rule expand_ellipsis_many)
next
  assume "count_list args Ellipsis = 0 \<and> length args \<noteq> rank"
  then show "expand_ellipsis args rank = expand_ellipsis (args @ [Ellipsis]) rank"
    using expand_ellipsis_none_append[of args rank] by simp
next
  assume "count_list args Ellipsis = 0 \<and> length args = rank"
  then show "expand_ellipsis args rank = Inr args"
    using expand_ellipsis_none_full[of args rank] by simp
next
  fix pre post
  assume h: "args = pre @ Ellipsis # post \<and> Ellipsis \<notin> set pre \<and> Ellipsis \<notin> set post"
  then have a: "args = pre @ Ellipsis # post" and p: "Ellipsis \<notin> set pre" "Ellipsis \<notin> set post"
    by simp_all
  show "expand_ellipsis args rank =
        (if rank < length pre + length post
         then Inl (TypeError ''Argument sequence too long'' [])
         else Inr (pre @ replicate (rank - (length pre + length post)) (Slice None None None) @ post))"
    unfolding a by (rule expand_ellipsis_one[OF p])
next
  assume "count_list args Ellipsis \<le> 1 \<and> rank < length (filter (\<lambda>a. a \<noteq> Ellipsis) args)"
  then show "expand_ellipsis args rank = Inl (TypeError ''Argument sequence too long'' [])"
    using expand_ellipsis_too_many[of args rank] by simp
next
  fix fa
  assume "expand_ellipsis args rank = Inr fa"
  then show "length fa = rank" by (rule expand_ellipsis_length)
qed

theorem expand_ellipsis_spec_witness:
  "expand_ellipsis [Ellipsis, Integer 0] 4 =
     Inr [Slice None None None, Slice None None None, Slice None None None, Integer 0] \<and>
   expand_ellipsis [Integer 0] 4 = expand_ellipsis [Integer 0, Ellipsis] 4 \<and>
   expand_ellipsis [Integer 0, Integer 1] 2 = Inr [Integer 0, Integer 1] \<and>
   expand_ellipsis [Integer 0, Ellipsis, Ellipsis] 4 = Inl (ValueError ''Only one ellipsis may be used.'' []) \<and>
   expand_ellipsis [Integer 0, Integer 0, Integer 1] 2 = Inl (TypeError ''Argument sequence too long'' [])"
proof -
  have a: "expand_ellipsis ([] @ Ellipsis # [Integer 0]) 4 =
     Inr [Slice None None None, Slice None None None, Slice None None None, Integer 0]"
    using expand_ellipsis_spec[of "[] @ Ellipsis # [Integer 0]" 4,
        THEN conjunct2, THEN conjunct2, THEN conjunct2, THEN conjunct1, rule_format, of "[]" "[Integer 0]"]
    by (simp add: eval_nat_numeral)
  have b: "expand_ellipsis [Integer 0] 4 = expand_ellipsis [Integer 0, Ellipsis] 4"
    using expand_ellipsis_spec[of "[Integer 0]" 4] by simp
  have c: "expand_ellipsis [Integer 0, Integer 1] 2 = Inr [Integer 0, Integer 1]"
    using expand_ellipsis_spec[of "[Integer 0, Integer 1]" 2] by simp
  have d: "expand_ellipsis [Integer 0, Ellipsis, Ellipsis] 4 = Inl (ValueError ''Only one ellipsis may be used.'' [])"
    using expand_ellipsis_spec[of "[Integer 0, Ellipsis, Ellipsis]" 4] by simp
  have e: "expand_ellipsis [Integer 0, Integer 0, Integer 1] 2 = Inl (TypeError ''Argument sequence too long'' [])"
    using expand_ellipsis_spec[of "[Integer 0, Integer 0, Integer 1]" 2,
        THEN conjunct2, THEN conjunct2, THEN conjunct2, THEN conjunct2, THEN conjunct1]
    by simp
  show ?thesis using a b c d e by simp
qed

section \<open>Broadcasting a source shape to a simple selection\<close>

lemma foldl_mult: "foldl (\<lambda>prod n. prod * n) a xs = a * prod_list xs" for a :: int
  by (induction xs arbitrary: a) (auto simp: algebra_simps)

lemma product_prod_list: "product xs = prod_list xs"
  by (simp add: product_def foldl_mult)

lemma walk_axes_length: "walk_axes axes src = Some (e, r) \<Longrightarrow> length e = length axes"
proof (induction axes src arbitrary: e r rule: walk_axes.induct)
  case (1 src)
  then show ?case by simp
next
  case (2 scalar m b axes src)
  then show ?case
    by (auto split: if_splits list.splits)
qed

lemma from_end_rev: "1 \<le> idx \<Longrightarrow> idx \<le> length xs \<Longrightarrow> from_end xs idx = Some (rev xs ! (idx - 1))"
  by (cases idx) (simp_all add: from_end_def rev_nth)

lemma mshape_length:
  "simple_wf self \<Longrightarrow> s_sel self = (start, count, stride, scalar) \<Longrightarrow>
   length (SimpleSelection_mshape self) = length count"
  by (simp add: simple_wf_def SimpleSelection_mshape_def)

lemma expand_step_axis:
  assumes wf: "simple_wf self" and sel: "s_sel self = (start, count, stride, scalar)"
    and k: "k < length count"
    and ax: "rev (zip scalar (zip (SimpleSelection_mshape self) (s_block_shape self))) ! k = (sc, m, b)"
  shows "expand_step self src (Suc k) (rem, es) =
     (if rem = [] \<or> sc then Inr (rem, es @ [1])
      else if last rem = 1 \<or> m = last rem \<or> b = last rem then Inr (butlast rem, es @ [last rem])
      else Inl (TypeError ''Can't broadcast %s -> %s'' [Shp src, Shp (s_array_shape self)]))"
proof -
  have ls: "length scalar = length count" and lb: "length (s_block_shape self) = length count"
    using wf sel by (simp_all add: simple_wf_def)
  have lm: "length (SimpleSelection_mshape self) = length count"
    using wf sel by (rule mshape_length)
  have lz: "length (zip scalar (zip (SimpleSelection_mshape self) (s_block_shape self))) = length count"
    using ls lb lm by simp
  have nth: "zip scalar (zip (SimpleSelection_mshape self) (s_block_shape self)) ! (length count - Suc k) = (sc, m, b)"
    using ax k lz by (simp add: rev_nth)
  have i: "length count - Suc k < length count" using k by simp
  have sc: "rev scalar ! k = sc" and m: "rev (SimpleSelection_mshape self) ! k = m"
    and b: "rev (s_block_shape self) ! k = b"
    using nth k ls lb lm i by (simp_all add: rev_nth)
  have f1: "from_end scalar (Suc k) = Some sc"
    using from_end_rev[of "Suc k" scalar] k ls sc by simp
  have f2: "from_end (SimpleSelection_mshape self) (Suc k) = Some m"
    using from_end_rev[of "Suc k" "SimpleSelection_mshape self"] k lm m by simp
  have f3: "from_end (s_block_shape self) (Suc k) = Some b"
    using from_end_rev[of "Suc k" "s_block_shape self"] k lb b by simp
  show ?thesis
    by (simp add: expand_step_def sel f1 f2 f3 Let_def)
qed

lemma expand_loop_walk:
  assumes wf: "simple_wf self" and sel: "s_sel self = (start, count, stride, scalar)"
    and k: "k \<le> length count"
  shows "expand_loop self src [Suc k..<Suc (length count)] (rem, es) =
     (case walk_axes (drop k (rev (zip scalar (zip (SimpleSelection_mshape self) (s_block_shape self)))))
                     (rev rem) of
        None \<Rightarrow> Inl (TypeError ''Can't broadcast %s -> %s'' [Shp src, Shp (s_array_shape self)])
      | Some (e, r) \<Rightarrow> Inr (rev r, es @ e))"
  using k
proof (induction "length count - k" arbitrary: k rem es)
  case 0
  then have "k = length count" by simp
  moreover have "length (rev (zip scalar (zip (SimpleSelection_mshape self) (s_block_shape self)))) = length count"
    using wf sel mshape_length[OF wf sel] by (simp add: simple_wf_def)
  ultimately show ?case by simp
next
  case (Suc d)
  define raxes where "raxes = rev (zip scalar (zip (SimpleSelection_mshape self) (s_block_shape self)))"
  have lr: "length raxes = length count"
    unfolding raxes_def using wf sel mshape_length[OF wf sel] by (simp add: simple_wf_def)
  have k: "k < length count" using Suc.hyps(2) by simp
  obtain sc m b where ax: "raxes ! k = (sc, m, b)" by (cases "raxes ! k")
  have dr: "drop k raxes = (sc, m, b) # drop (Suc k) raxes"
    using k lr ax by (simp add: Cons_nth_drop_Suc[symmetric])
  define idxs where "idxs = [Suc (Suc k)..<Suc (length count)]"
  have up: "[Suc k..<Suc (length count)] = Suc k # idxs"
    unfolding idxs_def using k by (simp add: upt_conv_Cons del: upt_Suc)
  have step: "expand_step self src (Suc k) (rem', es') =
     (if rem' = [] \<or> sc then Inr (rem', es' @ [1])
      else if last rem' = 1 \<or> m = last rem' \<or> b = last rem' then Inr (butlast rem', es' @ [last rem'])
      else Inl (TypeError ''Can't broadcast %s -> %s'' [Shp src, Shp (s_array_shape self)]))" for rem' es'
    using expand_step_axis[OF wf sel k, of sc m b src rem' es'] ax unfolding raxes_def by simp
  have ih: "expand_loop self src idxs (rem', es') =
     (case walk_axes (drop (Suc k) raxes) (rev rem') of
        None \<Rightarrow> Inl (TypeError ''Can't broadcast %s -> %s'' [Shp src, Shp (s_array_shape self)])
      | Some (e, r) \<Rightarrow> Inr (rev r, es' @ e))" for rem' es'
    using Suc.hyps(1)[of "Suc k" rem' es'] Suc.hyps(2) k unfolding raxes_def idxs_def by simp
  show ?case
  proof (cases "rem = [] \<or> sc")
    case True
    then show ?thesis
      unfolding raxes_def[symmetric] dr up
      by (auto simp: step ih split: option.splits)
  next
    case False
    then obtain t rest where r: "rev rem = t # rest" by (cases "rev rem") auto
    then have rem: "rem = rev rest @ [t]" by (simp add: rev_swap)
    show ?thesis
      unfolding raxes_def[symmetric] dr up rem
      using False
      by (auto simp: step ih split: option.splits)
  qed
qed


lemma simple_wf_init: "simple_wf (SimpleSelection_init shape)"
  by (simp add: simple_wf_def SimpleSelection_init_def Let_def)

lemma simple_wf_getitem:
  assumes "simple_wf self" "SimpleSelection_getitem self args = Inr self'"
  shows "simple_wf self'"
proof (cases "s_shape self = []")
  case True
  then have "self' = self\<lparr>s_id := select_all (s_id self)\<rparr>"
    using assms(2)
    by (auto simp: SimpleSelection_getitem_def split: list.splits index.splits)
  then show ?thesis using assms(1) by (simp add: simple_wf_def)
next
  case False
  then show ?thesis using assms(2)
    by (auto simp: SimpleSelection_getitem_def handle_simple_def simple_wf_def Let_def
             split: sum.splits)
qed

lemma expand_shape_walk:
  assumes "simple_wf self"
  shows "SimpleSelection_expand_shape self source_shape = expand_shape_spec self source_shape \<and>
         (\<forall>e. SimpleSelection_expand_shape self source_shape = Inr e \<longrightarrow>
              length e = length (SimpleSelection_mshape self))"
proof -
  obtain start count stride scalar where sel: "s_sel self = (start, count, stride, scalar)"
    by (cases "s_sel self")
  define raxes where "raxes = rev (zip scalar (zip (SimpleSelection_mshape self) (s_block_shape self)))"
  have lm: "length (SimpleSelection_mshape self) = length count"
    using assms sel by (rule mshape_length)
  have lr: "length raxes = length count"
    unfolding raxes_def using assms sel lm by (simp add: simple_wf_def)
  have loop: "expand_loop self source_shape [1..<length count + 1] (source_shape, []) =
     (case walk_axes raxes (rev source_shape) of
        None \<Rightarrow> Inl (TypeError ''Can't broadcast %s -> %s'' [Shp source_shape, Shp (s_array_shape self)])
      | Some (e, r) \<Rightarrow> Inr (rev r, e))"
    using expand_loop_walk[OF assms sel, of 0 source_shape source_shape "[]"]
    unfolding raxes_def by (simp del: upt_Suc cong: option.case_cong)
  have eq: "SimpleSelection_expand_shape self source_shape = expand_shape_spec self source_shape"
    unfolding SimpleSelection_expand_shape_def expand_shape_spec_def Let_def lm
      loop[unfolded raxes_def] sel
    by (auto split: option.splits)
  have len: "length e = length (SimpleSelection_mshape self)"
    if "SimpleSelection_expand_shape self source_shape = Inr e" for e
  proof -
    have "expand_shape_spec self source_shape = Inr e" using that eq by simp
    then obtain e' r where w: "walk_axes raxes (rev source_shape) = Some (e', r)" and e: "e = rev e'"
      unfolding expand_shape_spec_def sel raxes_def
      by (auto split: option.splits if_splits)
    have "length e' = length raxes" using w by (rule walk_axes_length)
    then show ?thesis using e lr lm by simp
  qed
  show ?thesis using eq len by blast
qed

text \<open>
  C3. For every \<^verbatim>\<open>SimpleSelection\<close> whose tuples have one entry per axis and every source
  shape, \<^verbatim>\<open>expand_shape\<close> computes what the rule of the specification
  (\<^const>\<open>expand_shape_spec\<close>, built on \<^const>\<open>walk_axes\<close>) computes, errors included,
  and a returned shape has the rank of the selection.
\<close>

theorem expand_shape_refines:
  assumes "simple_wf self"
  shows "SimpleSelection_expand_shape self source_shape = expand_shape_spec self source_shape \<and>
         (\<forall>e. SimpleSelection_expand_shape self source_shape = Inr e \<longrightarrow>
              length e = length (SimpleSelection_mshape self))"
  using assms by (rule expand_shape_walk)

text \<open>
  The selection \<^verbatim>\<open>[..., 0]\<close> on the shape (10, 5, 4, 2): mshape (10, 5, 4, 1), the last
  axis scalar, and the source shape (5, 4) expands to (1, 5, 4, 1).
\<close>

lemma getitem_last_axis:
  "SimpleSelection_getitem (SimpleSelection_init [10, 5, 4, 2]) [Ellipsis, Integer 0] =
     Inr \<lparr>s_id = select_hyperslab (select_all (create_simple [10, 5, 4, 2]))
                    [0, 0, 0, 0] [10, 5, 4, 1] [1, 1, 1, 1] [1, 1, 1, 1] SELECT_SET,
          s_shape = [10, 5, 4, 2],
          s_sel = ([0, 0, 0, 0], [10, 5, 4, 1], [1, 1, 1, 1], [False, False, False, True]),
          s_array_shape = [10, 5, 4], s_block_shape = [1, 1, 1, 1]\<rparr>"
proof -
  have hs: "handle_simple [10,5,4,2] [Ellipsis, Integer 0] =
      Inr ([0,0,0,0],[10,5,4,1],[1,1,1,1],[1,1,1,1],[False,False,False,True])"
    by code_simp
  show ?thesis
    by (simp add: SimpleSelection_getitem_def SimpleSelection_init_def Let_def hs)
qed

theorem expand_shape_refines_witness:
  "(case SimpleSelection_getitem (SimpleSelection_init [10, 5, 4, 2]) [Ellipsis, Integer 0] of
      Inl e \<Rightarrow> False
    | Inr sel \<Rightarrow>
        simple_wf sel \<and> SimpleSelection_mshape sel = [10, 5, 4, 1] \<and>
        snd (snd (snd (s_sel sel))) = [False, False, False, True] \<and>
        SimpleSelection_expand_shape sel [5, 4] = Inr [1, 5, 4, 1] \<and>
        expand_shape_spec sel [5, 4] = Inr [1, 5, 4, 1])"
proof -
  define sel where "sel = \<lparr>s_id = select_hyperslab (select_all (create_simple [10, 5, 4, 2]))
                    [0, 0, 0, 0] [10, 5, 4, 1] [1, 1, 1, 1] [1, 1, 1, 1] SELECT_SET,
          s_shape = [10, 5, 4, 2],
          s_sel = ([0, 0, 0, 0], [10, 5, 4, 1], [1, 1, 1, 1], [False, False, False, True]),
          s_array_shape = [10, 5, 4], s_block_shape = [1, 1, 1, 1]\<rparr>"
  have g: "SimpleSelection_getitem (SimpleSelection_init [10, 5, 4, 2]) [Ellipsis, Integer 0] = Inr sel"
    unfolding sel_def by (rule getitem_last_axis)
  have wf: "simple_wf sel" by (simp add: sel_def simple_wf_def)
  have m: "SimpleSelection_mshape sel = [10, 5, 4, 1]"
    by (simp add: sel_def SimpleSelection_mshape_def)
  have sp: "expand_shape_spec sel [5, 4] = Inr [1, 5, 4, 1]"
    by (simp add: expand_shape_spec_def sel_def SimpleSelection_mshape_def)
  have "SimpleSelection_expand_shape sel [5, 4] = Inr [1, 5, 4, 1]"
    using expand_shape_refines[OF wf, of "[5, 4]"] sp by simp
  then show ?thesis using g wf m sp by (simp add: sel_def)
qed

section \<open>The chunks of a broadcast\<close>

lemma map_upt_mult:
  "map f [0..<n * p] = concat (map (\<lambda>a. map (\<lambda>j. f (a * p + j)) [0..<p]) [0..<n])"
proof (induction n)
  case 0
  then show ?case by simp
next
  case (Suc n)
  have s: "Suc n * p = n * p + p" by simp
  have a: "[0..<n * p + p] = [0..<n * p] @ [n * p..<n * p + p]"
    by (rule upt_add_eq_append) simp
  have b: "map f [n * p..<n * p + p] = map (\<lambda>j. f (n * p + j)) [0..<p]"
  proof -
    have "[n * p..<n * p + p] = map (\<lambda>i. i + n * p) [0..<p]"
      using map_add_upt[of "n * p" p] by (simp only: add.commute)
    then have "map f [n * p..<n * p + p] = map f (map (\<lambda>i. i + n * p) [0..<p])"
      by (rule arg_cong)
    also have "\<dots> = map (\<lambda>j. f (n * p + j)) [0..<p]"
      by (simp only: map_map o_def add.commute)
    finally show ?thesis .
  qed
  have c: "[0..<Suc n] = [0..<n] @ [n]" by simp
  show ?case
    unfolding s a c map_append concat_append Suc.IH b by simp
qed


lemma prod_list_nonneg: "\<forall>d\<in>set ds. (0::int) \<le> d \<Longrightarrow> 0 \<le> prod_list ds"
  by (induction ds) auto

lemma unravel_index_enumerates:
  assumes "\<forall>d\<in>set ds. 0 \<le> d"
  shows "map (\<lambda>i. unravel_index (int i) ds) [0..<nat (prod_list ds)] =
         product_lists (map (\<lambda>d. map int [0..<nat d]) ds)"
  using assms
proof (induction ds)
  case Nil
  then show ?case by simp
next
  case (Cons d ds)
  define P where "P = prod_list ds"
  have P0: "0 \<le> P" unfolding P_def using Cons.prems by (intro prod_list_nonneg) simp
  have d0: "0 \<le> d" using Cons.prems by simp
  have ih: "map (\<lambda>i. unravel_index (int i) ds) [0..<nat P] =
         product_lists (map (\<lambda>d. map int [0..<nat d]) ds)"
    unfolding P_def using Cons by simp
  have n: "nat (prod_list (d # ds)) = nat d * nat P"
    using d0 P0 by (simp add: P_def nat_mult_distrib)
  have inner: "map (\<lambda>j. unravel_index (int (a * nat P + j)) (d # ds)) [0..<nat P] =
               map (Cons (int a)) (map (\<lambda>j. unravel_index (int j) ds) [0..<nat P])" for a
  proof -
    have "unravel_index (int (a * nat P + j)) (d # ds) = int a # unravel_index (int j) ds"
      if "j < nat P" for j
    proof -
      have jP: "int j < P" and Ppos: "0 < P" using that by simp_all
      have e: "int (a * nat P + j) = int a * P + int j" using P0 by simp
      have pp: "product ds = P" by (simp add: product_prod_list P_def)
      have dv: "(int a * P + int j) div P = int a" using jP Ppos by simp
      have md: "(int a * P + int j) mod P = int j" using jP Ppos by simp
      show ?thesis unfolding e unravel_index.simps pp dv md ..
    qed
    then show ?thesis by simp
  qed
  have "map (\<lambda>i. unravel_index (int i) (d # ds)) [0..<nat (prod_list (d # ds))] =
        concat (map (\<lambda>a. map (\<lambda>j. unravel_index (int (a * nat P + j)) (d # ds)) [0..<nat P]) [0..<nat d])"
    unfolding n by (rule map_upt_mult)
  also have "\<dots> = concat (map (\<lambda>a. map (Cons (int a)) (product_lists (map (\<lambda>d. map int [0..<nat d]) ds))) [0..<nat d])"
    unfolding inner ih ..
  also have "\<dots> = product_lists (map (\<lambda>d. map int [0..<nat d]) (d # ds))"
    by (simp add: comp_def)
  finally show ?case .
qed

lemma unravel_index_length: "length (unravel_index i ds) = length ds"
  by (induction ds arbitrary: i) auto

lemma floordiv_all_nonzero:
  "0 \<notin> snd ` set xys \<Longrightarrow> floordiv_all xys = Inr (map (\<lambda>(x, y). x div y) xys)"
  by (induction xys) auto

lemma floordiv_all_zero:
  "0 \<in> snd ` set xys \<Longrightarrow> floordiv_all xys = Inl ZeroDivisionError"
proof (induction xys)
  case Nil
  then show ?case by simp
next
  case (Cons xy xys)
  obtain x y where xy: "xy = (x, y)" by (cases xy)
  show ?case
  proof (cases "y = 0")
    case True
    then show ?thesis by (simp add: xy)
  next
    case False
    then have "0 \<in> snd ` set xys" using Cons.prems xy by auto
    then have "floordiv_all xys = Inl ZeroDivisionError" by (rule Cons.IH)
    then show ?thesis using False by (simp add: xy)
  qed
qed


lemma broadcast_chunks:
  assumes wf: "simple_wf self" and ns: "s_shape self \<noteq> []"
    and sel: "s_sel self = (start, count, step, scalar)"
    and es: "SimpleSelection_expand_shape self source_shape = Inr chunk_shape"
    and nz: "0 \<notin> set chunk_shape"
    and ch: "chunks = map (\<lambda>(x, y). x div y) (zip (SimpleSelection_mshape self) chunk_shape)"
    and sd: "sid = select_hyperslab (copy (s_id self)) (replicate (length chunks) 0)
                     (replicate (length chunks) 1) step chunk_shape SELECT_SET"
  shows "SimpleSelection_broadcast self source_shape =
           Inr (if prod_list chunks = 1 then [s_id self]
                else map (\<lambda>i. offset_simple sid
                        (map (\<lambda>(start', step', chunk_idx). start' + chunk_idx * step')
                             (zip start (zip step (unravel_index (int i) chunks)))))
                      [0..<nat (prod_list chunks)])"
    and "length chunks = length (SimpleSelection_mshape self)"
    and "length start = length chunks" and "length step = length chunks"
proof -
  have lc: "length chunk_shape = length (SimpleSelection_mshape self)"
    using expand_shape_walk[OF wf, of source_shape] es by simp
  show l: "length chunks = length (SimpleSelection_mshape self)"
    unfolding ch using lc by simp
  have lm: "length (SimpleSelection_mshape self) = length count"
    using wf sel by (rule mshape_length)
  show "length start = length chunks" "length step = length chunks"
    using wf sel l lm by (simp_all add: simple_wf_def)
  have "0 \<notin> snd ` set (zip (SimpleSelection_mshape self) chunk_shape)"
    using nz by (auto dest: set_zip_rightD)
  then have fd: "floordiv_all (zip (SimpleSelection_mshape self) chunk_shape) = Inr chunks"
    unfolding ch by (rule floordiv_all_nonzero)
  show "SimpleSelection_broadcast self source_shape =
           Inr (if prod_list chunks = 1 then [s_id self]
                else map (\<lambda>i. offset_simple sid
                        (map (\<lambda>(start', step', chunk_idx). start' + chunk_idx * step')
                             (zip start (zip step (unravel_index (int i) chunks)))))
                      [0..<nat (prod_list chunks)])"
    unfolding SimpleSelection_broadcast_def
    using ns by (simp add: sel es fd Let_def product_prod_list sd l)
qed

lemma broadcast_scalar:
  assumes "s_shape self = []"
  shows "SimpleSelection_broadcast self source_shape =
           (if prod_list source_shape \<noteq> 1
            then Inl (TypeError ''Can't broadcast %s to scalar'' [Shp source_shape])
            else Inr [select_all (s_id self)])"
  using assms by (simp add: SimpleSelection_broadcast_def product_prod_list)

text \<open>
  A zero in the chunk shape (an empty axis matched by a source dimension 0) makes the
  division \<^verbatim>\<open>x//y\<close> raise before anything is yielded.
\<close>

lemma broadcast_zero_chunk:
  assumes wf: "simple_wf self" and ns: "s_shape self \<noteq> []"
    and es: "SimpleSelection_expand_shape self source_shape = Inr chunk_shape"
    and z: "0 \<in> set chunk_shape"
  shows "SimpleSelection_broadcast self source_shape = Inl ZeroDivisionError"
proof -
  have lc: "length chunk_shape = length (SimpleSelection_mshape self)"
    using expand_shape_walk[OF wf, of source_shape] es by simp
  then have "snd ` set (zip (SimpleSelection_mshape self) chunk_shape) = set chunk_shape"
    by (metis map_snd_zip set_map)
  then have "0 \<in> snd ` set (zip (SimpleSelection_mshape self) chunk_shape)" using z by simp
  then have fd: "floordiv_all (zip (SimpleSelection_mshape self) chunk_shape) = Inl ZeroDivisionError"
    by (rule floordiv_all_zero)
  obtain start count step scalar where sel: "s_sel self = (start, count, step, scalar)"
    by (cases "s_sel self")
  show ?thesis
    unfolding SimpleSelection_broadcast_def using ns by (simp add: sel es fd)
qed

lemma broadcast_empty_selection:
  "SimpleSelection_getitem (SimpleSelection_init [10, 5]) [Slice (Some 0) (Some 0) None, Slice None None None] =
     Inr \<lparr>s_id = select_hyperslab (select_all (create_simple [10, 5]))
                    [0, 0] [0, 5] [1, 1] [1, 1] SELECT_SET,
          s_shape = [10, 5],
          s_sel = ([0, 0], [0, 5], [1, 1], [False, False]),
          s_array_shape = [0, 5], s_block_shape = [1, 1]\<rparr> \<and>
   SimpleSelection_expand_shape \<lparr>s_id = select_hyperslab (select_all (create_simple [10, 5]))
                    [0, 0] [0, 5] [1, 1] [1, 1] SELECT_SET,
          s_shape = [10, 5],
          s_sel = ([0, 0], [0, 5], [1, 1], [False, False]),
          s_array_shape = [0, 5], s_block_shape = [1, 1]\<rparr> [0, 5] = Inr [0, 5] \<and>
   SimpleSelection_broadcast \<lparr>s_id = select_hyperslab (select_all (create_simple [10, 5]))
                    [0, 0] [0, 5] [1, 1] [1, 1] SELECT_SET,
          s_shape = [10, 5],
          s_sel = ([0, 0], [0, 5], [1, 1], [False, False]),
          s_array_shape = [0, 5], s_block_shape = [1, 1]\<rparr> [0, 5] = Inl ZeroDivisionError"
proof -
  define sel where "sel = \<lparr>s_id = select_hyperslab (select_all (create_simple [10, 5]))
                    [0, 0] [0, 5] [1, 1] [1, 1] SELECT_SET,
          s_shape = [10, 5],
          s_sel = ([0, 0], [0, 5], [1, 1], [False, False]),
          s_array_shape = [0, 5], s_block_shape = [1, 1]\<rparr>"
  have hs: "handle_simple [10, 5] [Slice (Some 0) (Some 0) None, Slice None None None] =
      Inr ([0, 0], [0, 5], [1, 1], [1, 1], [False, False])"
    by code_simp
  have g: "SimpleSelection_getitem (SimpleSelection_init [10, 5])
      [Slice (Some 0) (Some 0) None, Slice None None None] = Inr sel"
    by (simp add: SimpleSelection_getitem_def SimpleSelection_init_def Let_def hs sel_def)
  have wf: "simple_wf sel" by (simp add: sel_def simple_wf_def)
  have ns: "s_shape sel \<noteq> []" by (simp add: sel_def)
  have es: "SimpleSelection_expand_shape sel [0, 5] = Inr [0, 5]"
    using expand_shape_walk[OF wf, of "[0, 5]"]
    by (simp add: expand_shape_spec_def sel_def SimpleSelection_mshape_def)
  have "SimpleSelection_broadcast sel [0, 5] = Inl ZeroDivisionError"
    using wf ns es by (rule broadcast_zero_chunk) simp
  then show ?thesis using g es unfolding sel_def by simp
qed

text \<open>
  C2, as the code has it. On a rank-0 extent \<^verbatim>\<open>broadcast\<close> requires the product of the
  source shape to be 1 and yields the whole extent once. On an extent of rank at least 1,
  when \<^verbatim>\<open>expand_shape\<close> accepts the source shape with a chunk shape free of zeros, it
  yields exactly the product over the axes of \<open>mshape[a] div chunk_shape[a]\<close> handles: the
  committed region itself when that product is 1, and otherwise, for every index \<open>i\<close>
  below the product, the copied handle re-described as one block of the chunk shape and
  repositioned to \<open>start[a] + unravel_index(i)[a] * stride[a]\<close> on every axis; the
  multi-indices of a grid without negative entry come in the order of
  \<^const>\<open>product_lists\<close>, the last axis varying fastest.
\<close>

theorem broadcast_amended:
  "(s_shape self = [] \<longrightarrow>
      SimpleSelection_broadcast self source_shape =
        (if prod_list source_shape \<noteq> 1
         then Inl (TypeError ''Can't broadcast %s to scalar'' [Shp source_shape])
         else Inr [select_all (s_id self)])) \<and>
   (s_shape self \<noteq> [] \<and> simple_wf self \<and> s_sel self = (start, count, step, scalar) \<and>
    SimpleSelection_expand_shape self source_shape = Inr chunk_shape \<and> 0 \<notin> set chunk_shape \<and>
    chunks = map (\<lambda>(x, y). x div y) (zip (SimpleSelection_mshape self) chunk_shape) \<and>
    sid = select_hyperslab (copy (s_id self)) (replicate (length chunks) 0)
            (replicate (length chunks) 1) step chunk_shape SELECT_SET \<longrightarrow>
      (\<exists>ys. SimpleSelection_broadcast self source_shape = Inr ys \<and>
         length chunks = length (SimpleSelection_mshape self) \<and>
         length ys = nat (prod_list chunks) \<and>
         (prod_list chunks = 1 \<longrightarrow> ys = [s_id self]) \<and>
         (prod_list chunks \<noteq> 1 \<longrightarrow>
            (\<forall>i < nat (prod_list chunks).
               ys ! i = offset_simple sid (sp_offset (ys ! i)) \<and>
               length (sp_offset (ys ! i)) = length chunks \<and>
               (\<forall>a < length chunks.
                  sp_offset (ys ! i) ! a = start ! a + unravel_index (int i) chunks ! a * step ! a))) \<and>
         ((\<forall>c \<in> set chunks. 0 \<le> c) \<longrightarrow>
            map (\<lambda>i. unravel_index (int i) chunks) [0..<nat (prod_list chunks)] =
              product_lists (map (\<lambda>c. map int [0..<nat c]) chunks))))"
proof (intro conjI impI)
  assume "s_shape self = []"
  then show "SimpleSelection_broadcast self source_shape =
        (if prod_list source_shape \<noteq> 1
         then Inl (TypeError ''Can't broadcast %s to scalar'' [Shp source_shape])
         else Inr [select_all (s_id self)])"
    by (rule broadcast_scalar)
next
  assume h: "s_shape self \<noteq> [] \<and> simple_wf self \<and> s_sel self = (start, count, step, scalar) \<and>
    SimpleSelection_expand_shape self source_shape = Inr chunk_shape \<and> 0 \<notin> set chunk_shape \<and>
    chunks = map (\<lambda>(x, y). x div y) (zip (SimpleSelection_mshape self) chunk_shape) \<and>
    sid = select_hyperslab (copy (s_id self)) (replicate (length chunks) 0)
            (replicate (length chunks) 1) step chunk_shape SELECT_SET"
  then have ns: "s_shape self \<noteq> []" and wf: "simple_wf self"
    and sel: "s_sel self = (start, count, step, scalar)"
    and es: "SimpleSelection_expand_shape self source_shape = Inr chunk_shape"
    and nz: "0 \<notin> set chunk_shape"
    and ch: "chunks = map (\<lambda>(x, y). x div y) (zip (SimpleSelection_mshape self) chunk_shape)"
    and sd: "sid = select_hyperslab (copy (s_id self)) (replicate (length chunks) 0)
            (replicate (length chunks) 1) step chunk_shape SELECT_SET"
    by simp_all
  note bc = broadcast_chunks[OF wf ns sel es nz ch sd]
  define off where "off i = map (\<lambda>(start', step', chunk_idx). start' + chunk_idx * step')
                             (zip start (zip step (unravel_index (int i) chunks)))" for i
  define ys where "ys = (if prod_list chunks = 1 then [s_id self]
                else map (\<lambda>i. offset_simple sid (off i)) [0..<nat (prod_list chunks)])"
  have b: "SimpleSelection_broadcast self source_shape = Inr ys"
    unfolding ys_def off_def by (rule bc(1))
  have len: "length ys = nat (prod_list chunks)" by (simp add: ys_def)
  have one: "prod_list chunks = 1 \<longrightarrow> ys = [s_id self]" by (simp add: ys_def)
  have loff: "length (off i) = length chunks" for i
    unfolding off_def using bc(3,4) by (simp add: unravel_index_length)
  have noff: "off i ! a = start ! a + unravel_index (int i) chunks ! a * step ! a"
    if "a < length chunks" for i a
    unfolding off_def using that bc(3,4) by (simp add: unravel_index_length)
  have many: "prod_list chunks \<noteq> 1 \<longrightarrow>
            (\<forall>i < nat (prod_list chunks).
               ys ! i = offset_simple sid (sp_offset (ys ! i)) \<and>
               length (sp_offset (ys ! i)) = length chunks \<and>
               (\<forall>a < length chunks.
                  sp_offset (ys ! i) ! a = start ! a + unravel_index (int i) chunks ! a * step ! a))"
    using loff noff by (simp add: ys_def offset_simple_def)
  have enum: "(\<forall>c \<in> set chunks. 0 \<le> c) \<longrightarrow>
            map (\<lambda>i. unravel_index (int i) chunks) [0..<nat (prod_list chunks)] =
              product_lists (map (\<lambda>c. map int [0..<nat c]) chunks)"
    using unravel_index_enumerates[of chunks] by blast
  show "\<exists>ys. SimpleSelection_broadcast self source_shape = Inr ys \<and>
         length chunks = length (SimpleSelection_mshape self) \<and>
         length ys = nat (prod_list chunks) \<and>
         (prod_list chunks = 1 \<longrightarrow> ys = [s_id self]) \<and>
         (prod_list chunks \<noteq> 1 \<longrightarrow>
            (\<forall>i < nat (prod_list chunks).
               ys ! i = offset_simple sid (sp_offset (ys ! i)) \<and>
               length (sp_offset (ys ! i)) = length chunks \<and>
               (\<forall>a < length chunks.
                  sp_offset (ys ! i) ! a = start ! a + unravel_index (int i) chunks ! a * step ! a))) \<and>
         ((\<forall>c \<in> set chunks. 0 \<le> c) \<longrightarrow>
            map (\<lambda>i. unravel_index (int i) chunks) [0..<nat (prod_list chunks)] =
              product_lists (map (\<lambda>c. map int [0..<nat c]) chunks))"
    using b bc(2) len one many enum by blast
qed

text \<open>
  C2 as stated fails on a rank-0 extent: \<^verbatim>\<open>expand_shape\<close> accepts the source shape (0,),
  the product over no axis is 1, and \<^verbatim>\<open>broadcast\<close> raises instead of yielding one region.
\<close>

theorem broadcast_counterexample:
  "SimpleSelection_expand_shape (SimpleSelection_init []) [0] = Inr [] \<and>
   SimpleSelection_broadcast (SimpleSelection_init []) [0] =
     Inl (TypeError ''Can't broadcast %s to scalar'' [Shp [0]])"
  by (simp add: SimpleSelection_expand_shape_def SimpleSelection_broadcast_def
        SimpleSelection_init_def SimpleSelection_mshape_def product_def)


lemma getitem_full_10_5:
  "SimpleSelection_getitem (SimpleSelection_init [10, 5]) [Slice None None None, Slice None None None] =
     Inr \<lparr>s_id = select_hyperslab (select_all (create_simple [10, 5]))
                    [0, 0] [10, 5] [1, 1] [1, 1] SELECT_SET,
          s_shape = [10, 5],
          s_sel = ([0, 0], [10, 5], [1, 1], [False, False]),
          s_array_shape = [10, 5], s_block_shape = [1, 1]\<rparr>"
proof -
  have hs: "handle_simple [10, 5] [Slice None None None, Slice None None None] =
      Inr ([0, 0], [10, 5], [1, 1], [1, 1], [False, False])"
    by code_simp
  show ?thesis
    by (simp add: SimpleSelection_getitem_def SimpleSelection_init_def Let_def hs)
qed

lemma chunk_1_5:
  "select_hyperslab (copy (select_hyperslab (select_all (create_simple [10, 5]))
                    [0, 0] [10, 5] [1, 1] [1, 1] SELECT_SET)) [0, 0] [1, 1] [1, 1] [1, 5] SELECT_SET =
   \<lparr>sp_class = SIMPLE, sp_shape = [10, 5], sp_select_type = SEL_HYPERSLABS,
    sp_points = [[0, 0], [0, 1], [0, 2], [0, 3], [0, 4]], sp_offset = [0, 0]\<rparr>"
  by code_simp

theorem broadcast_amended_witness:
  "(case SimpleSelection_getitem (SimpleSelection_init [10, 5])
           [Slice None None None, Slice None None None] of
      Inl e \<Rightarrow> False
    | Inr sel \<Rightarrow>
        s_shape sel \<noteq> [] \<and> simple_wf sel \<and> SimpleSelection_mshape sel = [10, 5] \<and>
        SimpleSelection_expand_shape sel [5] = Inr [1, 5] \<and>
        (case SimpleSelection_broadcast sel [5] of
           Inl e \<Rightarrow> False
         | Inr ys \<Rightarrow>
             length ys = 10 \<and>
             map sp_offset ys = [[0, 0], [1, 0], [2, 0], [3, 0], [4, 0], [5, 0], [6, 0], [7, 0], [8, 0], [9, 0]] \<and>
             map sp_points ys = replicate 10 [[0, 0], [0, 1], [0, 2], [0, 3], [0, 4]]))"
proof -
  define sel where "sel = \<lparr>s_id = select_hyperslab (select_all (create_simple [10, 5]))
                    [0, 0] [10, 5] [1, 1] [1, 1] SELECT_SET,
          s_shape = [10, 5],
          s_sel = ([0, 0], [10, 5], [1, 1], [False, False]),
          s_array_shape = [10, 5], s_block_shape = [1, 1]\<rparr>"
  define sid where "sid = \<lparr>sp_class = SIMPLE, sp_shape = [10, 5], sp_select_type = SEL_HYPERSLABS,
    sp_points = [[0, 0], [0, 1], [0, 2], [0, 3], [0, 4]], sp_offset = [0::int, 0]\<rparr>"
  have g: "SimpleSelection_getitem (SimpleSelection_init [10, 5])
           [Slice None None None, Slice None None None] = Inr sel"
    unfolding sel_def by (rule getitem_full_10_5)
  have ns: "s_shape sel \<noteq> []" by (simp add: sel_def)
  have wf: "simple_wf sel" by (simp add: sel_def simple_wf_def)
  have m: "SimpleSelection_mshape sel = [10, 5]" by (simp add: sel_def SimpleSelection_mshape_def)
  have s: "s_sel sel = ([0, 0], [10, 5], [1, 1], [False, False])" by (simp add: sel_def)
  have es: "SimpleSelection_expand_shape sel [5] = Inr [1, 5]"
    using expand_shape_walk[OF wf, of "[5]"]
    by (simp add: expand_shape_spec_def sel_def SimpleSelection_mshape_def)
  have ch: "[10, 1] = map (\<lambda>(x, y). x div y) (zip (SimpleSelection_mshape sel) [1, 5])"
    by (simp add: m)
  have sd: "sid = select_hyperslab (copy (s_id sel)) (replicate (length [10::int, 1]) 0)
            (replicate (length [10::int, 1]) 1) [1, 1] [1, 5] SELECT_SET"
    unfolding sid_def sel_def using chunk_1_5 by (simp add: numeral_2_eq_2)
  obtain ys where b: "SimpleSelection_broadcast sel [5] = Inr ys"
    and len: "length ys = nat (prod_list [10, 1])"
    and each: "\<forall>i < nat (prod_list [10, 1]).
               ys ! i = offset_simple sid (sp_offset (ys ! i)) \<and>
               length (sp_offset (ys ! i)) = length [10::int, 1] \<and>
               (\<forall>a < length [10::int, 1].
                  sp_offset (ys ! i) ! a = [0, 0] ! a + unravel_index (int i) [10, 1] ! a * [1, 1] ! a)"
    using broadcast_amended[of sel "[5]" "[0, 0]" "[10, 5]" "[1, 1]" "[False, False]" "[1, 5]" "[10, 1]" sid]
      ns wf s es ch sd by auto
  have l10: "length ys = 10" using len by simp
  have pts: "sp_points (ys ! i) = [[0, 0], [0, 1], [0, 2], [0, 3], [0, 4]]" if "i < 10" for i
  proof -
    have "ys ! i = offset_simple sid (sp_offset (ys ! i))" using each that by simp
    then have "sp_points (ys ! i) = sp_points (offset_simple sid (sp_offset (ys ! i)))" by simp
    then show ?thesis by (simp add: offset_simple_def sid_def)
  qed
  have offs: "sp_offset (ys ! i) = [int i, 0]" if "i < 10" for i
  proof -
    have l: "length (sp_offset (ys ! i)) = 2" using each that by simp
    have a0: "sp_offset (ys ! i) ! 0 = int i" using each that by (simp add: product_def)
    have a1: "sp_offset (ys ! i) ! 1 = 0" using each that by (simp add: product_def)
    show ?thesis
      using l a0 a1 by (intro nth_equalityI) (auto simp: less_Suc_eq numeral_2_eq_2)
  qed
  have mo: "map sp_offset ys = map (\<lambda>i. [int i, 0]) [0..<10]"
    using l10 offs by (intro nth_equalityI) auto
  have mp: "map sp_points ys = replicate 10 [[0, 0], [0, 1], [0, 2], [0, 3], [0, 4]]"
    using l10 pts by (intro nth_equalityI) auto
  have up: "map (\<lambda>i. [int i, 0]) [0..<10] =
      [[0, 0], [1, 0], [2, 0], [3, 0], [4, 0], [5, 0], [6, 0], [7, 0], [8, 0], [9, 0]]"
    by (simp add: upt_rec)
  show ?thesis
    using g ns wf m es b l10 mo mp up by simp
qed

section \<open>The base selection\<close>

text \<open>
  C10. The base \<^verbatim>\<open>Selection.broadcast\<close> raises \<^verbatim>\<open>TypeError\<close> whenever the product of the
  source shape differs from the number of selected points, and otherwise yields the
  committed region once; a selection that adopts a handle holds that handle and counts
  its points.
\<close>

theorem Selection_broadcast_spec:
  "(prod_list source_shape \<noteq> nselect self \<longrightarrow>
      Selection_broadcast self source_shape =
        Inl (TypeError ''Broadcasting is not supported for point-wise selections'' [])) \<and>
   (prod_list source_shape = nselect self \<longrightarrow>
      Selection_broadcast self source_shape = Inr [s_id self]) \<and>
   s_id (Selection_init shape (Some sid)) = sid \<and>
   nselect (Selection_init shape (Some sid)) = get_select_npoints sid"
  by (simp add: Selection_broadcast_def product_prod_list Selection_init_def nselect_def)

theorem Selection_broadcast_spec_witness:
  "nselect (Selection_init [4, 4] (Some (select_hyperslab (select_all (create_simple [4, 4]))
      [0, 0] [2, 3] [1, 1] [1, 1] SELECT_SET))) = 6 \<and>
   Selection_broadcast (Selection_init [4, 4] (Some (select_hyperslab (select_all (create_simple [4, 4]))
      [0, 0] [2, 3] [1, 1] [1, 1] SELECT_SET))) [2, 3] =
     Inr [select_hyperslab (select_all (create_simple [4, 4])) [0, 0] [2, 3] [1, 1] [1, 1] SELECT_SET] \<and>
   Selection_broadcast (Selection_init [4, 4] (Some (select_hyperslab (select_all (create_simple [4, 4]))
      [0, 0] [2, 3] [1, 1] [1, 1] SELECT_SET))) [5] =
     Inl (TypeError ''Broadcasting is not supported for point-wise selections'' [])"
proof -
  define sid where "sid = select_hyperslab (select_all (create_simple [4, 4]))
      [0, 0] [2, 3] [1, 1] [1, 1] SELECT_SET"
  have n: "get_select_npoints sid = 6"
    unfolding sid_def by code_simp
  have m: "nselect (Selection_init [4, 4] (Some sid)) = 6"
    using n by (simp add: nselect_def Selection_init_def)
  show ?thesis
    using m Selection_broadcast_spec[of "[2, 3]" "Selection_init [4, 4] (Some sid)" "[4, 4]" sid]
      Selection_broadcast_spec[of "[5]" "Selection_init [4, 4] (Some sid)" "[4, 4]" sid]
    unfolding sid_def[symmetric] by simp
qed

section \<open>Indexing a scalar extent\<close>

text \<open>
  C8. On a rank-0 extent \<^verbatim>\<open>SimpleSelection.__getitem__\<close> tests only the first entry of
  the index tuple: the index \<^verbatim>\<open>(..., 0)\<close> is neither \<^verbatim>\<open>...\<close> nor \<^verbatim>\<open>()\<close>, and it is
  accepted and selects the whole extent, where the message of the check says that only
  \<^verbatim>\<open>...\<close> and \<^verbatim>\<open>()\<close> are allowed.
\<close>

theorem scalar_getitem_accepts_trailing_index:
  "SimpleSelection_getitem (SimpleSelection_init []) [Ellipsis, Integer 0] =
     Inr (SimpleSelection_init []) \<and>
   nselect (SimpleSelection_init []) = 1"
  by (simp add: SimpleSelection_getitem_def SimpleSelection_init_def select_all_def
        create_simple_def nselect_def get_select_npoints_def product_def)

text \<open>
  The part of C8 the code does keep: an index of one entry on a rank-0 extent is accepted
  exactly when it is \<^verbatim>\<open>...\<close> or \<^verbatim>\<open>()\<close>, the empty index is accepted, and an accepted
  index selects the whole extent.
\<close>

lemma scalar_getitem_single:
  assumes "s_shape self = []"
  shows "SimpleSelection_getitem self [] = Inr (self\<lparr>s_id := select_all (s_id self)\<rparr>)"
    and "arg = Ellipsis \<or> arg = IndexTuple [] \<Longrightarrow>
         SimpleSelection_getitem self [arg] = Inr (self\<lparr>s_id := select_all (s_id self)\<rparr>)"
    and "arg \<noteq> Ellipsis \<Longrightarrow> arg \<noteq> IndexTuple [] \<Longrightarrow> \<exists>e. SimpleSelection_getitem self [arg] = Inl e"
  using assms
  by (auto simp: SimpleSelection_getitem_def split: index.splits list.splits)

section \<open>The shape guessed for a hyperslab selection\<close>

text \<open>
  C9 fails in the code. Row 0 of three columns of a 4 x 4 extent together with the single
  element (1, 1) is a union of two disjoint rectangular regions with \<open>N = 4\<close> selected
  points inside the bounding box from (0, 0) to (1, 2). Masking all but the first row
  leaves 3 points and masking all but the first column leaves 1 point, so the per-axis
  counts are \<open>4 div 3 = 1\<close> and \<open>4 div 1 = 4\<close>. The floor division hides that 3 does not
  divide 4, the counts multiply to 4, the product test passes, and \<^verbatim>\<open>guess_shape\<close>
  returns the shape (1, 4) of a rectangle that is not the region, where (4,) is due.
\<close>

theorem guess_shape_reports_false_rectangle:
  "sp_class (select_hyperslab (select_hyperslab (select_all (create_simple [4, 4]))
     [0, 0] [1, 3] [1, 1] [1, 1] SELECT_SET) [1, 1] [1, 1] [1, 1] [1, 1] SELECT_OR) = SIMPLE \<and>
   sp_select_type (select_hyperslab (select_hyperslab (select_all (create_simple [4, 4]))
     [0, 0] [1, 3] [1, 1] [1, 1] SELECT_SET) [1, 1] [1, 1] [1, 1] [1, 1] SELECT_OR) = SEL_HYPERSLABS \<and>
   selected_points (select_hyperslab (select_hyperslab (select_all (create_simple [4, 4]))
     [0, 0] [1, 3] [1, 1] [1, 1] SELECT_SET) [1, 1] [1, 1] [1, 1] [1, 1] SELECT_OR) =
     [[0, 0], [0, 1], [0, 2], [1, 1]] \<and>
   get_select_npoints (select_hyperslab (select_hyperslab (select_all (create_simple [4, 4]))
     [0, 0] [1, 3] [1, 1] [1, 1] SELECT_SET) [1, 1] [1, 1] [1, 1] [1, 1] SELECT_OR) = 4 \<and>
   get_select_bounds (select_hyperslab (select_hyperslab (select_all (create_simple [4, 4]))
     [0, 0] [1, 3] [1, 1] [1, 1] SELECT_SET) [1, 1] [1, 1] [1, 1] [1, 1] SELECT_OR) =
     Some ([0, 0], [1, 2]) \<and>
   axis_counts (select_hyperslab (select_hyperslab (select_all (create_simple [4, 4]))
     [0, 0] [1, 3] [1, 1] [1, 1] SELECT_SET) [1, 1] [1, 1] [1, 1] [1, 1] SELECT_OR)
     4 [0, 0] [2, 3] [0, 1] = Inr [1, 4] \<and>
   guess_shape (select_hyperslab (select_hyperslab (select_all (create_simple [4, 4]))
     [0, 0] [1, 3] [1, 1] [1, 1] SELECT_SET) [1, 1] [1, 1] [1, 1] [1, 1] SELECT_OR) = Inr (Some [1, 4])"
  by code_simp

text \<open>
  The false rectangle does not need an inexact division. On a 6 x 6 extent the union of
  rows 0 to 1 of columns 2 to 5 with rows 1 to 4 of columns 0 to 1 has 16 points; the
  first row holds 4 of them and the first column 4, both counts are \<open>16 div 4 = 4\<close>, and
  the result is the shape (4, 4).
\<close>

lemma guess_shape_false_rectangle_exact:
  "get_select_npoints (select_hyperslab (select_hyperslab (select_all (create_simple [6, 6]))
     [0, 2] [2, 4] [1, 1] [1, 1] SELECT_SET) [1, 0] [4, 2] [1, 1] [1, 1] SELECT_OR) = 16 \<and>
   guess_shape (select_hyperslab (select_hyperslab (select_all (create_simple [6, 6]))
     [0, 2] [2, 4] [1, 1] [1, 1] SELECT_SET) [1, 0] [4, 2] [1, 1] [1, 1] SELECT_OR) = Inr (Some [4, 4])"
  by code_simp

text \<open>
  Where the counts do not multiply to \<open>N\<close> the fallback is taken: two 2 x 2 blocks on the
  diagonal of a 4 x 4 extent have the counts (4, 4) and 8 points, and the result is (8,).
\<close>

lemma guess_shape_diagonal_blocks:
  "get_select_npoints (select_hyperslab (select_hyperslab (select_all (create_simple [4, 4]))
     [0, 0] [2, 2] [1, 1] [1, 1] SELECT_SET) [2, 2] [2, 2] [1, 1] [1, 1] SELECT_OR) = 8 \<and>
   axis_counts (select_hyperslab (select_hyperslab (select_all (create_simple [4, 4]))
     [0, 0] [2, 2] [1, 1] [1, 1] SELECT_SET) [2, 2] [2, 2] [1, 1] [1, 1] SELECT_OR) 8 [0, 0] [4, 4] [0, 1] = Inr [4, 4] \<and>
   guess_shape (select_hyperslab (select_hyperslab (select_all (create_simple [4, 4]))
     [0, 0] [2, 2] [1, 1] [1, 1] SELECT_SET) [2, 2] [2, 2] [1, 1] [1, 1] SELECT_OR) = Inr (Some [8])"
  by code_simp

text \<open>
  A union that is a regular grid keeps its grid shape: row 0 and row 2 of three columns
  have the counts (2, 3), which multiply to 6.
\<close>

lemma guess_shape_regular_grid:
  "selected_points (select_hyperslab (select_hyperslab (select_all (create_simple [4, 4]))
     [0, 0] [1, 3] [1, 1] [1, 1] SELECT_SET) [2, 0] [1, 3] [1, 1] [1, 1] SELECT_OR) =
     [[0, 0], [0, 1], [0, 2], [2, 0], [2, 1], [2, 2]] \<and>
   guess_shape (select_hyperslab (select_hyperslab (select_all (create_simple [4, 4]))
     [0, 0] [1, 3] [1, 1] [1, 1] SELECT_SET) [2, 0] [1, 3] [1, 1] [1, 1] SELECT_OR) = Inr (Some [2, 3])"
  by code_simp

section \<open>Sequences of a fancy selection\<close>

lemma not_increasing_iff:
  "not_increasing xs \<longleftrightarrow> (\<exists>i. Suc i < length xs \<and> xs ! i \<ge> xs ! Suc i)"
proof
  assume "not_increasing xs"
  then obtain a b where ab: "(a, b) \<in> set (zip (butlast xs) (tl xs))" and ge: "a \<ge> b"
    by (auto simp: not_increasing_def list_ex_iff)
  then obtain i where i: "i < length (butlast xs)" "i < length (tl xs)"
    and a: "butlast xs ! i = a" and b: "tl xs ! i = b"
    by (auto simp: in_set_zip)
  have "Suc i < length xs" using i by simp
  moreover have "xs ! i = a" using a i by (simp add: nth_butlast)
  moreover have "xs ! Suc i = b" using b i by (simp add: nth_tl)
  ultimately show "\<exists>i. Suc i < length xs \<and> xs ! i \<ge> xs ! Suc i" using ge by blast
next
  assume "\<exists>i. Suc i < length xs \<and> xs ! i \<ge> xs ! Suc i"
  then obtain i where i: "Suc i < length xs" and ge: "xs ! i \<ge> xs ! Suc i" by blast
  have "(xs ! i, xs ! Suc i) \<in> set (zip (butlast xs) (tl xs))"
    using i by (auto simp: in_set_zip nth_butlast nth_tl intro!: exI[of _ i])
  then show "not_increasing xs" using ge by (auto simp: not_increasing_def list_ex_iff)
qed

lemma collect_not_increasing:
  assumes "p < length xs" "as_sequence (xs ! p) = Inr (Some seq)" "not_increasing seq"
    and "\<forall>j<p. \<forall>e. as_sequence (xs ! j) \<noteq> Inl e"
  shows "collect_sequences k xs acc = Inl (TypeError ''Indexing elements must be in increasing order'' [])"
  using assms
proof (induction xs arbitrary: p k acc)
  case Nil
  then show ?case by simp
next
  case (Cons a xs)
  show ?case
  proof (cases p)
    case 0
    then show ?thesis using Cons.prems by simp
  next
    case (Suc p')
    have p': "p' < length xs" and s: "as_sequence (xs ! p') = Inr (Some seq)"
      using Cons.prems Suc by simp_all
    have before: "\<forall>j<p'. \<forall>e. as_sequence (xs ! j) \<noteq> Inl e"
      using Cons.prems(4) Suc by auto
    have ih: "collect_sequences k' xs acc' = Inl (TypeError ''Indexing elements must be in increasing order'' [])"
      for k' acc'
      using Cons.IH[OF p' s Cons.prems(3) before] .
    have a: "\<forall>e. as_sequence a \<noteq> Inl e" using Cons.prems(4) Suc by auto
    show ?thesis
    proof (cases "as_sequence a")
      case (Inl e)
      then show ?thesis using a by simp
    next
      case (Inr r)
      then show ?thesis by (cases r) (simp_all add: ih)
    qed
  qed
qed

lemma collect_some_error:
  assumes "p < length xs" "as_sequence (xs ! p) = Inr (Some seq)" "not_increasing seq"
  shows "\<exists>e. collect_sequences k xs acc = Inl e"
  using assms
proof (induction xs arbitrary: p k acc)
  case Nil
  then show ?case by simp
next
  case (Cons a xs)
  show ?case
  proof (cases p)
    case 0
    then show ?thesis using Cons.prems by (auto split: sum.splits option.splits)
  next
    case (Suc p')
    have p': "p' < length xs" and s: "as_sequence (xs ! p') = Inr (Some seq)"
      using Cons.prems Suc by simp_all
    have ih: "\<exists>e. collect_sequences k' xs acc' = Inl e" for k' acc'
      using Cons.IH[OF p' s Cons.prems(3)] .
    show ?thesis
    proof (cases "as_sequence a")
      case (Inl e)
      then show ?thesis by simp
    next
      case (Inr r)
      then show ?thesis by (cases r) (simp_all add: ih)
    qed
  qed
qed

lemma expand_ellipsis_keeps:
  assumes "expand_ellipsis args rank = Inr fa" "a \<in> set args" "a \<noteq> Ellipsis"
  shows "a \<in> set fa"
proof -
  define F where "F n = (\<lambda>arg. if arg = Ellipsis then replicate n (Slice None None None) else [arg])" for n
  have m: "a \<in> set (concat (map (F n) xs))" if "a \<in> set xs" for n xs
    using that assms(3) by (induction xs) (auto simp: F_def)
  have "\<exists>n xs. a \<in> set xs \<and> fa = concat (map (F n) xs)"
  proof (cases "count_list args Ellipsis = 0 \<and> length args \<noteq> rank")
    case True
    then have "fa = concat (map (F (nat (int rank - int (length (args @ [Ellipsis])) + 1))) (args @ [Ellipsis]))"
      using assms(1) unfolding expand_ellipsis_def Let_def F_def by (simp split: if_splits)
    then show ?thesis using assms(2) by (intro exI[of _ "nat (int rank - int (length (args @ [Ellipsis])) + 1)"] exI[of _ "args @ [Ellipsis]"]) simp
  next
    case False
    then have "fa = concat (map (F (nat (int rank - int (length args) + 1))) args)"
      using assms(1) unfolding expand_ellipsis_def Let_def F_def by (auto split: if_splits)
    then show ?thesis using assms(2) by blast
  qed
  then show ?thesis using m by blast
qed

text \<open>
  C6, as the code has it. Let a list or tuple argument hold an adjacent pair whose first
  value is not below the second. Applying an index that contains it always raises. When
  the ellipsis expansion of the index succeeds and no boolean array of other than one
  dimension stands before that axis, the exception is the \<^verbatim>\<open>TypeError\<close> of the
  increasing-order check.
\<close>

theorem fancy_not_increasing:
  "(a = IndexList seq \<or> a = IndexTuple seq) \<and> Suc i < length seq \<and> seq ! i \<ge> seq ! Suc i \<longrightarrow>
     (a \<in> set args \<longrightarrow> (\<exists>e. FancySelection_getitem self args = Inl e)) \<and>
     (expand_ellipsis args (length (s_shape self)) = Inr fa \<and> p < length fa \<and> fa ! p = a \<and>
      (\<forall>j<p. \<forall>shp data. fa ! j = BoolArray shp data \<longrightarrow> length shp = 1) \<longrightarrow>
        FancySelection_getitem self args =
          Inl (TypeError ''Indexing elements must be in increasing order'' []))"
proof (intro impI conjI)
  assume h: "(a = IndexList seq \<or> a = IndexTuple seq) \<and> Suc i < length seq \<and> seq ! i \<ge> seq ! Suc i"
  then have ni: "not_increasing seq" using not_increasing_iff[of seq] by blast
  have sa: "as_sequence a = Inr (Some seq)" using h by auto
  have ne: "a \<noteq> Ellipsis" using h by auto
  {
    assume m: "a \<in> set args"
    show "\<exists>e. FancySelection_getitem self args = Inl e"
    proof (cases "expand_ellipsis args (length (s_shape self))")
      case (Inl e)
      then show ?thesis by (simp add: FancySelection_getitem_def)
    next
      case (Inr fa')
      then have "a \<in> set fa'" using m ne by (rule expand_ellipsis_keeps)
      then obtain q where q: "q < length fa'" "fa' ! q = a" by (auto simp: in_set_conv_nth)
      then have "\<exists>e. collect_sequences 0 fa' [] = Inl e"
        using collect_some_error[of q fa' seq 0 "[]"] sa ni by simp
      then show ?thesis using Inr by (auto simp: FancySelection_getitem_def)
    qed
  }
  {
    assume e: "expand_ellipsis args (length (s_shape self)) = Inr fa \<and> p < length fa \<and> fa ! p = a \<and>
      (\<forall>j<p. \<forall>shp data. fa ! j = BoolArray shp data \<longrightarrow> length shp = 1)"
    have "\<forall>e. as_sequence (fa ! j) \<noteq> Inl e" if "j < p" for j
      using e that by (cases "fa ! j") auto
    then have "collect_sequences 0 fa [] = Inl (TypeError ''Indexing elements must be in increasing order'' [])"
      using collect_not_increasing[of p fa seq 0 "[]"] e sa ni by simp
    then show "FancySelection_getitem self args =
          Inl (TypeError ''Indexing elements must be in increasing order'' [])"
      using e by (simp add: FancySelection_getitem_def)
  }
qed


theorem fancy_not_increasing_witness:
  "expand_ellipsis [IndexList [3, 1], Slice None None None] (length (s_shape (FancySelection_init [10, 10]))) =
     Inr [IndexList [3, 1], Slice None None None] \<and>
   FancySelection_getitem (FancySelection_init [10, 10]) [IndexList [3, 1], Slice None None None] =
     Inl (TypeError ''Indexing elements must be in increasing order'' [])"
proof -
  have e: "expand_ellipsis [IndexList [3, 1], Slice None None None] (length (s_shape (FancySelection_init [10, 10]))) =
     Inr [IndexList [3, 1], Slice None None None]"
    by (simp add: expand_ellipsis_def FancySelection_init_def)
  show ?thesis
    using e fancy_not_increasing[of "IndexList [3, 1]" "[3, 1]" 0
        "[IndexList [3, 1], Slice None None None]" "FancySelection_init [10, 10]"
        "[IndexList [3, 1], Slice None None None]" 0]
    by simp
qed

text \<open>
  C6 as stated fails when an earlier check raises first: a two-dimensional boolean array
  before the sequence \<^verbatim>\<open>[3, 1]\<close>, or two ellipses after it.
\<close>

theorem fancy_not_increasing_counterexample:
  "FancySelection_getitem (FancySelection_init [10, 10])
     [BoolArray [2, 2] [True, False, False, True], IndexList [3, 1]] =
     Inl (TypeError ''Boolean indexing arrays must be 1-D'' []) \<and>
   FancySelection_getitem (FancySelection_init [10, 10])
     [IndexList [3, 1], Ellipsis, Ellipsis] =
     Inl (ValueError ''Only one ellipsis may be used.'' [])"
  by (simp add: FancySelection_getitem_def FancySelection_init_def expand_ellipsis_def)


section \<open>The shape of a fancy selection\<close>






lemma collect_increasing:
  assumes "collect_sequences k xs acc = Inr r" "(q, s) \<in> set r" "(q, s) \<notin> set acc"
  shows "\<not> not_increasing s"
  using assms
proof (induction xs arbitrary: k acc)
  case Nil
  then show ?case by simp
next
  case (Cons a xs)
  show ?case
  proof (cases "as_sequence a")
    case (Inl e)
    then show ?thesis using Cons.prems by simp
  next
    case (Inr opt)
    show ?thesis
    proof (cases opt)
      case None
      then have "collect_sequences (Suc k) xs acc = Inr r" using Cons.prems Inr by simp
      then show ?thesis using Cons.IH Cons.prems(2,3) by blast
    next
      case (Some l)
      then have c: "collect_sequences (Suc k) xs (acc @ [(k, l)]) = Inr r" and l: "\<not> not_increasing l"
        using Cons.prems Inr by (simp_all split: if_splits)
      show ?thesis
      proof (cases "(q, s) = (k, l)")
        case True
        then show ?thesis using l by simp
      next
        case False
        then have "(q, s) \<notin> set (acc @ [(k, l)])" using Cons.prems(3) by simp
        then show ?thesis using Cons.IH[OF c Cons.prems(2)] by blast
      qed
    qed
  qed
qed


















end
